theory Spec2Isabelle
  imports Complex_Main
begin

section \<open>The document model of the editor\<close>

text \<open>
  The editor (\<^verbatim>\<open>src/editor/inkpaint0.3.py\<close>) keeps its document in three classes.
  A \<^verbatim>\<open>Stroke\<close> has an id, an optional colour, a width, a list of points, the flag of
  the non-destructive erase and an optional fill colour; a \<^verbatim>\<open>Layer\<close> has an id, a name,
  a visibility flag and its strokes in creation order. The type \<open>'r\<close> is the type of a
  coordinate: the ray casting works over \<open>real\<close> (exact arithmetic standing for
  Python's floats), the eraser, the loader and the writer are parametric in it, and
  \<open>double\<close> below models the floats of the machine.
\<close>

type_synonym 'r point = "'r \<times> 'r"

record 'r stroke =
  stroke_id :: string
  color :: "string option"
  width :: int
  points :: "'r point list"
  erased :: bool
  fill :: "string option"

record 'r layer =
  layer_id :: int
  name :: string
  visible :: bool
  strokes :: "'r stroke list"

text \<open>The exceptions of Python that the modelled code can raise.\<close>

datatype py_error = ValueError | ZeroDivisionError | OverflowError | OSError

text \<open>
  The undo log. \<^verbatim>\<open>ActionAddStroke\<close> holds the stroke object itself; the model carries
  the stroke by value, which stands for the state of that object when the entry is replayed.
\<close>

datatype 'r action =
    ActionAddStroke int "'r stroke"
  | ActionEraseStrokes int "string list"
  | ActionMoveStrokes int "(string \<times> 'r point list \<times> 'r point list) list"

text \<open>
  The fields of \<^verbatim>\<open>InkPaint\<close> that make up the document and its history: canvas size
  (\<^verbatim>\<open>self.width\<close>, \<^verbatim>\<open>self.height\<close>), background, the layers (index 0 is the
  topmost), the two id counters, the index of the current layer, the colour of the
  current tool (\<^verbatim>\<open>self.color\<close>) and the two stacks, whose top is the last element.
\<close>

record 'r inkpaint =
  canvas_width :: int
  canvas_height :: int
  bg_color :: string
  layers :: "'r layer list"
  layer_counter :: int
  current_layer_index :: int
  stroke_counter :: int
  tool_color :: string
  undo_stack :: "'r action list"
  redo_stack :: "'r action list"

section \<open>Geometry\<close>

subsection \<open>Ray casting: \<^verbatim>\<open>_point_in_polygon\<close>\<close>

text \<open>
  One pass of the loop body: the edge from \<open>polygon[i]\<close> to \<open>polygon[(i+1) % n]\<close>
  crosses the ray when the two ends lie on different sides of \<open>y\<close> and \<open>x\<close> is left of
  the crossing. The denominator carries the source's \<open>1e-12\<close>; Python's \<^verbatim>\<open>and\<close>
  evaluates the division only when the first conjunct holds, and the division raises
  \<^verbatim>\<open>ZeroDivisionError\<close> when \<open>yj - yi + 1e-12\<close> is zero.
\<close>

definition eps12 :: real where
  "eps12 = 1 / 10 ^ 12"

definition intersect :: "real point \<Rightarrow> real point \<Rightarrow> real point \<Rightarrow> py_error + bool" where
  "intersect p a b =
     (case p of (x, y) \<Rightarrow> case a of (xi, yi) \<Rightarrow> case b of (xj, yj) \<Rightarrow>
        if (yi > y) \<noteq> (yj > y)
        then (if yj - yi + eps12 = 0 then Inl ZeroDivisionError
              else Inr (x < (xj - xi) * (y - yi) / (yj - yi + eps12) + xi))
        else Inr False)"

fun pip_loop :: "real point \<Rightarrow> real point list \<Rightarrow> nat list \<Rightarrow> bool \<Rightarrow> py_error + bool" where
  "pip_loop p polygon [] inside = Inr inside"
| "pip_loop p polygon (i # rest) inside =
     (case intersect p (polygon ! i) (polygon ! ((i + 1) mod length polygon)) of
        Inl e \<Rightarrow> Inl e
      | Inr hit \<Rightarrow> pip_loop p polygon rest (if hit then \<not> inside else inside))"

definition point_in_polygon :: "real point \<Rightarrow> real point list \<Rightarrow> py_error + bool" where
  "point_in_polygon p polygon = pip_loop p polygon [0..<length polygon] False"

subsection \<open>The current layer: \<^verbatim>\<open>_current_layer\<close>\<close>

text \<open>
  The position of the current layer in \<open>layers\<close>: none when there is no layer, the first
  layer when the index is out of range, the indexed layer otherwise.
\<close>

definition current_layer_pos :: "'r inkpaint \<Rightarrow> nat option" where
  "current_layer_pos d =
     (if layers d = [] then None
      else if current_layer_index d < 0 \<or> int (length (layers d)) \<le> current_layer_index d
           then Some 0
      else Some (nat (current_layer_index d)))"

subsection \<open>Eraser hit test: \<^verbatim>\<open>_apply_eraser_path\<close>\<close>

text \<open>
  The coordinates of a point are Python floats (\<^verbatim>\<open>screen_to_world\<close> divides, the loader
  reads them with \<^verbatim>\<open>float\<close>); the eraser width is an int (the size slider stores
  \<^verbatim>\<open>int(float(val))\<close>). The hit test takes the arithmetic it uses as a parameter:
  \<^verbatim>\<open>eraser_width / 2.0\<close>, which raises \<^verbatim>\<open>OverflowError\<close> on an int that no float can
  hold, the difference, the sum and the product of two floats, and their comparison
  \<^verbatim>\<open><=\<close>. What is proved for every such parameter holds for the floats of the machine, of
  which \<open>binary64\<close> below is an executable model.
\<close>

record 'r arith =
  half_width :: "int \<Rightarrow> py_error + 'r"
  f_sub :: "'r \<Rightarrow> 'r \<Rightarrow> 'r"
  f_add :: "'r \<Rightarrow> 'r \<Rightarrow> 'r"
  f_mul :: "'r \<Rightarrow> 'r \<Rightarrow> 'r"
  f_le :: "'r \<Rightarrow> 'r \<Rightarrow> bool"

text \<open>
  The precise check of the source: the two nested loops with \<^verbatim>\<open>break\<close> set \<open>hit\<close> as
  soon as one point of the eraser path and one point of the stroke satisfy
  \<^verbatim>\<open>dx*dx + dy*dy <= rad*rad\<close>, where \<^verbatim>\<open>dx = ep[0] - sp[0]\<close> and
  \<^verbatim>\<open>dy = ep[1] - sp[1]\<close>. The outer loop skips a stroke that is already erased and a
  stroke without points; a stroke that is hit gets \<^verbatim>\<open>erased = True\<close> and its id is
  appended to the list the function returns. \<^verbatim>\<open>rad\<close> is computed after the two early
  returns, so an empty path or a document without layers never raises.
\<close>

definition close_enough :: "'r arith \<Rightarrow> 'r \<Rightarrow> 'r point \<Rightarrow> 'r point \<Rightarrow> bool" where
  "close_enough A rad ep sp =
     (let dx = f_sub A (fst ep) (fst sp); dy = f_sub A (snd ep) (snd sp)
      in f_le A (f_add A (f_mul A dx dx) (f_mul A dy dy)) (f_mul A rad rad))"

definition hit :: "'r arith \<Rightarrow> 'r point list \<Rightarrow> 'r \<Rightarrow> 'r stroke \<Rightarrow> bool" where
  "hit A path_points_w rad s =
     list_ex (\<lambda>ep. list_ex (\<lambda>sp. close_enough A rad ep sp) (points s)) path_points_w"



subsection \<open>The floats of the machine\<close>


function bit_length :: "int \<Rightarrow> int" where
  "bit_length i = (if i \<le> 0 then 0 else 1 + bit_length (i div 2))"
  by pat_completeness auto
termination
  by (relation "measure nat") auto

declare bit_length.simps [simp del]














text \<open>
  The spec's side of the hit test: the Euclidean distance of two points, and "some point
  of the path and some point of the stroke are at distance at most the radius". In exact
  arithmetic the check of the source is this test.
\<close>

definition distance :: "real point \<Rightarrow> real point \<Rightarrow> real" where
  "distance p q = sqrt ((fst p - fst q)\<^sup>2 + (snd p - snd q)\<^sup>2)"

definition within_radius :: "real point list \<Rightarrow> real \<Rightarrow> real stroke \<Rightarrow> bool" where
  "within_radius path_points_w radius s =
     list_ex (\<lambda>ep. list_ex (\<lambda>sp. distance ep sp \<le> radius) (points s)) path_points_w"

definition exact_arith :: "real arith" where
  "exact_arith = \<lparr>half_width = (\<lambda>n. Inr (of_int n / 2)),
     f_sub = (\<lambda>x y. x - y), f_add = (\<lambda>x y. x + y), f_mul = (\<lambda>x y. x * y), f_le = (\<lambda>x y. x \<le> y)\<rparr>"



section \<open>History: \<^verbatim>\<open>undo\<close> and \<^verbatim>\<open>redo\<close>\<close>

text \<open>
  \<^verbatim>\<open>_layer_by_id\<close> returns the first layer with the id, \<^verbatim>\<open>_find_stroke_by_id\<close> the
  first stroke with the id in the first layer that has one. The model returns positions
  where the source returns the object, and mutates at that position.
\<close>

fun index_where :: "('a \<Rightarrow> bool) \<Rightarrow> 'a list \<Rightarrow> nat option" where
  "index_where P [] = None"
| "index_where P (x # xs) = (if P x then Some 0 else map_option Suc (index_where P xs))"

definition layer_by_id :: "'r layer list \<Rightarrow> int \<Rightarrow> nat option" where
  "layer_by_id ls lid = index_where (\<lambda>l. layer_id l = lid) ls"

fun find_stroke_by_id :: "'r layer list \<Rightarrow> string \<Rightarrow> (nat \<times> nat) option" where
  "find_stroke_by_id [] sid = None"
| "find_stroke_by_id (l # ls) sid =
     (case index_where (\<lambda>s. stroke_id s = sid) (strokes l) of
        Some j \<Rightarrow> Some (0, j)
      | None \<Rightarrow> map_option (\<lambda>(i, j). (Suc i, j)) (find_stroke_by_id ls sid))"

definition set_strokes :: "nat \<Rightarrow> 'r stroke list \<Rightarrow> 'r layer list \<Rightarrow> 'r layer list" where
  "set_strokes k ss ls = ls[k := (ls ! k)\<lparr>strokes := ss\<rparr>]"

definition update_stroke :: "nat \<Rightarrow> nat \<Rightarrow> ('r stroke \<Rightarrow> 'r stroke) \<Rightarrow> 'r layer list \<Rightarrow> 'r layer list" where
  "update_stroke i j f ls = set_strokes i ((strokes (ls ! i))[j := f (strokes (ls ! i) ! j)]) ls"

text \<open>
  The loops of the erase entry: for every id of the entry, every stroke of the layer with
  that id gets the flag.
\<close>

definition set_erased :: "bool \<Rightarrow> string list \<Rightarrow> 'r stroke list \<Rightarrow> 'r stroke list" where
  "set_erased b stroke_ids ss =
     foldl (\<lambda>acc sid. map (\<lambda>s. if stroke_id s = sid then s\<lparr>erased := b\<rparr> else s) acc) ss stroke_ids"

text \<open>
  The loop of the move entry: for every snapshot \<open>(sid, old_pts, new_pts)\<close> the stroke found
  by \<^verbatim>\<open>_find_stroke_by_id\<close> gets the old points (undo) or the new points (redo).
\<close>

definition set_points :: "bool \<Rightarrow> (string \<times> 'r point list \<times> 'r point list) list \<Rightarrow> 'r layer list \<Rightarrow> 'r layer list" where
  "set_points use_new stroke_snapshots ls =
     foldl (\<lambda>acc snap. case snap of (sid, old_pts, new_pts) \<Rightarrow>
              (case find_stroke_by_id acc sid of
                 None \<Rightarrow> acc
               | Some (i, j) \<Rightarrow> update_stroke i j (\<lambda>s. s\<lparr>points := (if use_new then new_pts else old_pts)\<rparr>) acc))
       ls stroke_snapshots"

text \<open>
  \<^verbatim>\<open>undo\<close> pops the last entry. An add entry removes the first stroke of the layer that
  has the entry's stroke id and moves to the redo stack only when it removed one; an erase
  or move entry moves to the redo stack whenever its layer exists. An entry whose layer is
  gone is dropped.
\<close>

definition undo :: "'r inkpaint \<Rightarrow> 'r inkpaint" where
  "undo d =
     (if undo_stack d = [] then d
      else let act = last (undo_stack d); d1 = d\<lparr>undo_stack := butlast (undo_stack d)\<rparr> in
        case act of
          ActionAddStroke lid st \<Rightarrow>
            (case layer_by_id (layers d1) lid of
               None \<Rightarrow> d1
             | Some k \<Rightarrow>
                 (case index_where (\<lambda>s. stroke_id s = stroke_id st) (strokes (layers d1 ! k)) of
                    None \<Rightarrow> d1
                  | Some j \<Rightarrow>
                      d1\<lparr>layers := set_strokes k
                            (take j (strokes (layers d1 ! k)) @ drop (Suc j) (strokes (layers d1 ! k)))
                            (layers d1),
                         redo_stack := redo_stack d1 @ [act]\<rparr>))
        | ActionEraseStrokes lid stroke_ids \<Rightarrow>
            (case layer_by_id (layers d1) lid of
               None \<Rightarrow> d1
             | Some k \<Rightarrow>
                 d1\<lparr>layers := set_strokes k (set_erased False stroke_ids (strokes (layers d1 ! k))) (layers d1),
                    redo_stack := redo_stack d1 @ [act]\<rparr>)
        | ActionMoveStrokes lid stroke_snapshots \<Rightarrow>
            (case layer_by_id (layers d1) lid of
               None \<Rightarrow> d1
             | Some k \<Rightarrow>
                 d1\<lparr>layers := set_points False stroke_snapshots (layers d1),
                    redo_stack := redo_stack d1 @ [act]\<rparr>))"

text \<open>\<^verbatim>\<open>redo\<close> is the mirror: an add entry appends its stroke to the layer.\<close>

definition redo :: "'r inkpaint \<Rightarrow> 'r inkpaint" where
  "redo d =
     (if redo_stack d = [] then d
      else let act = last (redo_stack d); d1 = d\<lparr>redo_stack := butlast (redo_stack d)\<rparr> in
        case act of
          ActionAddStroke lid st \<Rightarrow>
            (case layer_by_id (layers d1) lid of
               None \<Rightarrow> d1
             | Some k \<Rightarrow>
                 d1\<lparr>layers := set_strokes k (strokes (layers d1 ! k) @ [st]) (layers d1),
                    undo_stack := undo_stack d1 @ [act]\<rparr>)
        | ActionEraseStrokes lid stroke_ids \<Rightarrow>
            (case layer_by_id (layers d1) lid of
               None \<Rightarrow> d1
             | Some k \<Rightarrow>
                 d1\<lparr>layers := set_strokes k (set_erased True stroke_ids (strokes (layers d1 ! k))) (layers d1),
                    undo_stack := undo_stack d1 @ [act]\<rparr>)
        | ActionMoveStrokes lid stroke_snapshots \<Rightarrow>
            (case layer_by_id (layers d1) lid of
               None \<Rightarrow> d1
             | Some k \<Rightarrow>
                 d1\<lparr>layers := set_points True stroke_snapshots (layers d1),
                    undo_stack := undo_stack d1 @ [act]\<rparr>))"

text \<open>A sequence of calls of the two, and what the frame property is about.\<close>

datatype history_call = Undo | Redo

fun history_step :: "history_call \<Rightarrow> 'r inkpaint \<Rightarrow> 'r inkpaint" where
  "history_step Undo d = undo d"
| "history_step Redo d = redo d"

definition replay :: "history_call list \<Rightarrow> 'r inkpaint \<Rightarrow> 'r inkpaint" where
  "replay calls d = foldl (\<lambda>acc c. history_step c acc) d calls"

definition layer_frame :: "'r layer \<Rightarrow> int \<times> string \<times> bool" where
  "layer_frame l = (layer_id l, name l, visible l)"

definition doc_frame :: "'r inkpaint \<Rightarrow> (int \<times> string \<times> bool) list \<times> int \<times> int \<times> string" where
  "doc_frame d = (map layer_frame (layers d), canvas_width d, canvas_height d, bg_color d)"

section \<open>The fill tool: \<^verbatim>\<open>_apply_fill_at\<close>\<close>

text \<open>
  The tool walks the strokes of the current layer from the last to the first, skips a
  stroke that is erased or has fewer than three points, and fills the first one whose
  polygon contains the point: it sets the fill to the tool's colour, pushes an
  \<^verbatim>\<open>ActionAddStroke\<close> entry for the stroke (the source: "treat as change to allow undo
  (coarse)") and clears the redo stack. An exception of the test leaves the document as it is.
\<close>

fun fill_search :: "real point \<Rightarrow> (nat \<times> real stroke) list \<Rightarrow> py_error + nat option" where
  "fill_search p [] = Inr None"
| "fill_search p ((j, s) # rest) =
     (if erased s \<or> points s = [] \<or> length (points s) < 3 then fill_search p rest
      else case point_in_polygon p (points s) of
             Inl e \<Rightarrow> Inl e
           | Inr inside \<Rightarrow> if inside then Inr (Some j) else fill_search p rest)"

definition apply_fill_at :: "real \<Rightarrow> real \<Rightarrow> real inkpaint \<Rightarrow> py_error + real inkpaint" where
  "apply_fill_at wx wy d =
     (case current_layer_pos d of
        None \<Rightarrow> Inr d
      | Some k \<Rightarrow>
          (case fill_search (wx, wy) (rev (enumerate 0 (strokes (layers d ! k)))) of
             Inl e \<Rightarrow> Inl e
           | Inr None \<Rightarrow> Inr d
           | Inr (Some j) \<Rightarrow>
               (let s = (strokes (layers d ! k) ! j)\<lparr>fill := Some (tool_color d)\<rparr> in
                Inr (d\<lparr>layers := update_stroke k j (\<lambda>_. s) (layers d),
                       undo_stack := undo_stack d @ [ActionAddStroke (layer_id (layers d ! k)) s],
                       redo_stack := []\<rparr>))))"

text \<open>A document with one layer that holds a triangle, the tool's colour red.\<close>

definition doc_triangle :: "real inkpaint" where
  "doc_triangle = \<lparr>canvas_width = 1000, canvas_height = 700, bg_color = ''#0b0d12'',
     layers = [\<lparr>layer_id = 1, name = ''Layer 1'', visible = True,
        strokes = [\<lparr>stroke_id = ''stroke_1'', color = Some ''#ffffff'', width = 3,
                    points = [(0, 0), (10, 0), (0, 10)], erased = False, fill = None\<rparr>]\<rparr>],
     layer_counter = 2, current_layer_index = 0, stroke_counter = 2, tool_color = ''#ff0000'',
     undo_stack = [], redo_stack = []\<rparr>"

section \<open>Text\<close>

text \<open>
  A Python string is modelled as a list of characters, each a code point below 256. The
  classes follow Python on that range: \<open>is_space\<close> is \<^verbatim>\<open>str.isspace\<close> (the characters
  \<^verbatim>\<open>str.strip\<close> and \<^verbatim>\<open>str.split\<close> remove and the regular expression class \<^verbatim>\<open>\s\<close>),
  \<open>is_word\<close> is the class \<^verbatim>\<open>\w\<close>, \<open>is_linebreak\<close> the boundaries of
  \<^verbatim>\<open>str.splitlines\<close>.
\<close>

definition is_space :: "char \<Rightarrow> bool" where
  "is_space c = (let n = (of_char c :: nat) in
     (9 \<le> n \<and> n \<le> 13) \<or> (28 \<le> n \<and> n \<le> 32) \<or> n = 133 \<or> n = 160)"

definition is_word :: "char \<Rightarrow> bool" where
  "is_word c = (let n = (of_char c :: nat) in
     (48 \<le> n \<and> n \<le> 57) \<or> (65 \<le> n \<and> n \<le> 90) \<or> n = 95 \<or> (97 \<le> n \<and> n \<le> 122)
     \<or> n = 170 \<or> n = 178 \<or> n = 179 \<or> n = 181 \<or> n = 185 \<or> n = 186
     \<or> (188 \<le> n \<and> n \<le> 190) \<or> (192 \<le> n \<and> n \<le> 214) \<or> (216 \<le> n \<and> n \<le> 246)
     \<or> 248 \<le> n)"

definition is_linebreak :: "char \<Rightarrow> bool" where
  "is_linebreak c = (let n = (of_char c :: nat) in
     (10 \<le> n \<and> n \<le> 13) \<or> (28 \<le> n \<and> n \<le> 30) \<or> n = 133)"

definition lstrip :: "string \<Rightarrow> string" where
  "lstrip s = dropWhile is_space s"

definition rstrip :: "string \<Rightarrow> string" where
  "rstrip s = rev (dropWhile is_space (rev s))"

definition strip :: "string \<Rightarrow> string" where
  "strip s = lstrip (rstrip s)"

text \<open>\<^verbatim>\<open>s.strip(c)\<close>, \<^verbatim>\<open>s.lstrip(c)\<close> and \<^verbatim>\<open>s.rstrip(c)\<close> for a single character.\<close>

definition lstrip_char :: "char \<Rightarrow> string \<Rightarrow> string" where
  "lstrip_char c s = dropWhile (\<lambda>x. x = c) s"

definition rstrip_char :: "char \<Rightarrow> string \<Rightarrow> string" where
  "rstrip_char c s = rev (dropWhile (\<lambda>x. x = c) (rev s))"

definition strip_char :: "char \<Rightarrow> string \<Rightarrow> string" where
  "strip_char c s = lstrip_char c (rstrip_char c s)"

fun startswith :: "string \<Rightarrow> string \<Rightarrow> bool" where
  "startswith s [] = True"
| "startswith [] (p # ps) = False"
| "startswith (c # cs) (p # ps) = (c = p \<and> startswith cs ps)"

text \<open>\<^verbatim>\<open>sub in s\<close> for strings.\<close>

fun contains :: "string \<Rightarrow> string \<Rightarrow> bool" where
  "contains [] sub = (sub = [])"
| "contains (c # cs) sub = (startswith (c # cs) sub \<or> contains cs sub)"

text \<open>
  The text before and after the first occurrence of a character: \<^verbatim>\<open>s.partition(c)\<close>,
  \<^verbatim>\<open>s.split(c, 1)\<close>. \<open>after_first\<close> is used only where the character occurs.
\<close>

definition before_first :: "char \<Rightarrow> string \<Rightarrow> string" where
  "before_first c s = takeWhile (\<lambda>x. x \<noteq> c) s"

definition after_first :: "char \<Rightarrow> string \<Rightarrow> string" where
  "after_first c s = tl (dropWhile (\<lambda>x. x \<noteq> c) s)"

text \<open>\<^verbatim>\<open>s.split()\<close>: the maximal runs of characters that are not white space.\<close>

fun split_ws :: "string \<Rightarrow> string list" where
  "split_ws [] = []"
| "split_ws (c # cs) =
     (if is_space c then split_ws cs
      else case cs of
             [] \<Rightarrow> [[c]]
           | c' # _ \<Rightarrow> (if is_space c' then [c] # split_ws cs
                        else case split_ws cs of [] \<Rightarrow> [[c]] | w # ws \<Rightarrow> (c # w) # ws))"

text \<open>
  \<^verbatim>\<open>s.split(None, 1)\<close>: the first run, and the rest from the next character that is not
  white space (its trailing white space kept), when there is one.
\<close>

definition split_ws1 :: "string \<Rightarrow> string list" where
  "split_ws1 s =
     (let s1 = lstrip s;
          w = takeWhile (\<lambda>c. \<not> is_space c) s1;
          r = lstrip (dropWhile (\<lambda>c. \<not> is_space c) s1)
      in if w = [] then [] else if r = [] then [w] else [w, r])"

text \<open>
  \<^verbatim>\<open>s.splitlines()\<close>: the pieces between line boundaries, a carriage return followed by
  a line feed counting as one boundary.
\<close>

fun splitlines :: "string \<Rightarrow> string list" where
  "splitlines [] = []"
| "splitlines [c] = (if is_linebreak c then [[]] else [[c]])"
| "splitlines (c # c' # cs) =
     (if c = CHR 0x0D \<and> c' = CHR 0x0A then [] # splitlines cs
      else if is_linebreak c then [] # splitlines (c' # cs)
      else case splitlines (c' # cs) of [] \<Rightarrow> [[c]] | l # ls \<Rightarrow> (c # l) # ls)"

subsection \<open>Integers\<close>

text \<open>
  The value of a digit in bases up to 36, and Python's \<^verbatim>\<open>int(s, base)\<close> for base 10
  and 16: white space around the literal is dropped, a sign may lead, base 16 accepts the
  prefix \<^verbatim>\<open>0x\<close>, and single underscores may separate digits. \<open>None\<close> is
  \<^verbatim>\<open>ValueError\<close>.

  The white space of \<^verbatim>\<open>int\<close> is narrower than that of \<^verbatim>\<open>str.strip\<close>: the separators
  28 to 31 are not dropped. The interpreter limits the conversion between \<^verbatim>\<open>int\<close> and
  \<^verbatim>\<open>str\<close> in a base that is no power of two: a literal with more than 4300 digits
  (\<^verbatim>\<open>sys.int_info.default_max_str_digits\<close>; the sign and the underscores do not count,
  leading zeros do) raises \<^verbatim>\<open>ValueError\<close>, and so does \<^verbatim>\<open>str(n)\<close>, in an f-string
  too, of an integer with more than 4300 digits.
\<close>

definition is_int_space :: "char \<Rightarrow> bool" where
  "is_int_space c = (let n = (of_char c :: nat) in
     (9 \<le> n \<and> n \<le> 13) \<or> n = 32 \<or> n = 133 \<or> n = 160)"

definition int_strip :: "string \<Rightarrow> string" where
  "int_strip s = dropWhile is_int_space (rev (dropWhile is_int_space (rev s)))"

definition max_str_digits :: int where
  "max_str_digits = 4300"

definition digit_val :: "char \<Rightarrow> nat option" where
  "digit_val c = (let n = (of_char c :: nat) in
     if 48 \<le> n \<and> n \<le> 57 then Some (n - 48)
     else if 97 \<le> n \<and> n \<le> 122 then Some (n - 87)
     else if 65 \<le> n \<and> n \<le> 90 then Some (n - 55)
     else None)"

definition digit_in :: "nat \<Rightarrow> char \<Rightarrow> nat option" where
  "digit_in b c = (case digit_val c of None \<Rightarrow> None | Some v \<Rightarrow> if v < b then Some v else None)"

fun digits_value :: "nat \<Rightarrow> nat \<Rightarrow> string \<Rightarrow> nat option" where
  "digits_value b acc [] = Some acc"
| "digits_value b acc [c] = map_option (\<lambda>v. acc * b + v) (digit_in b c)"
| "digits_value b acc (c # c' # cs) =
     (if c = CHR ''_''
      then (case digit_in b c' of None \<Rightarrow> None | Some v \<Rightarrow> digits_value b (acc * b + v) cs)
      else (case digit_in b c of None \<Rightarrow> None | Some v \<Rightarrow> digits_value b (acc * b + v) (c' # cs)))"

definition digits_start :: "nat \<Rightarrow> string \<Rightarrow> nat option" where
  "digits_start b s =
     (case s of [] \<Rightarrow> None
      | c # cs \<Rightarrow> (case digit_in b c of None \<Rightarrow> None | Some v \<Rightarrow> digits_value b v cs))"

definition py_int_base :: "nat \<Rightarrow> string \<Rightarrow> int option" where
  "py_int_base b s =
     (let t = int_strip s;
          neg = startswith t ''-'';
          u = (if startswith t ''-'' \<or> startswith t ''+'' then tl t else t);
          v = (if b = 16 \<and> (startswith u ''0x'' \<or> startswith u ''0X'')
               then (if startswith (drop 2 u) ''_'' then drop 3 u else drop 2 u)
               else u)
      in if b \<notin> set [2, 4, 8, 16, 32]
            \<and> max_str_digits < int (length (filter (\<lambda>c. c \<noteq> CHR ''_'') v))
         then None
         else map_option (\<lambda>n. if neg then - int n else int n) (digits_start b v))"

definition py_int :: "string \<Rightarrow> int option" where
  "py_int s = py_int_base 10 s"

text \<open>
  The decimal text of an integer, and \<^verbatim>\<open>str(n)\<close> as the f-strings call it: \<open>None\<close> is
  the \<^verbatim>\<open>ValueError\<close> of an integer with more than 4300 digits.
\<close>

definition digit_char :: "nat \<Rightarrow> char" where
  "digit_char n = char_of (48 + n)"

fun str_nat :: "nat \<Rightarrow> string" where
  "str_nat n = (if n < 10 then [digit_char n] else str_nat (n div 10) @ [digit_char (n mod 10)])"

declare str_nat.simps [simp del]

definition str_int :: "int \<Rightarrow> string" where
  "str_int i = (if i < 0 then CHR ''-'' # str_nat (nat (- i)) else str_nat (nat i))"

definition py_str :: "int \<Rightarrow> string option" where
  "py_str i = (if max_str_digits < int (length (str_nat (nat \<bar>i\<bar>))) then None
               else Some (str_int i))"

section \<open>Colours\<close>

text \<open>
  The renderer's \<^verbatim>\<open>parse_color\<close> (\<^verbatim>\<open>src/tools/inks_renderer.py\<close>) on a string:
  \<^verbatim>\<open>"none"\<close> is no colour, a string of seven characters that starts with \<^verbatim>\<open>#\<close> is read
  as three pairs of hexadecimal digits, anything else raises \<^verbatim>\<open>ValueError\<close>.
\<close>

definition hex_triple :: "string \<Rightarrow> string \<Rightarrow> string \<Rightarrow> py_error + int \<times> int \<times> int" where
  "hex_triple a b c =
     (case py_int_base 16 a of None \<Rightarrow> Inl ValueError
      | Some r \<Rightarrow> (case py_int_base 16 b of None \<Rightarrow> Inl ValueError
         | Some g \<Rightarrow> (case py_int_base 16 c of None \<Rightarrow> Inl ValueError
            | Some bl \<Rightarrow> Inr (r, g, bl))))"

definition parse_color :: "string \<Rightarrow> py_error + (int \<times> int \<times> int) option" where
  "parse_color c =
     (if c = ''none'' then Inr None
      else if startswith c ''#'' \<and> length c = 7
      then map_sum id Some (hex_triple (take 2 (drop 1 c)) (take 2 (drop 3 c)) (take 2 (drop 5 c)))
      else Inl ValueError)"

text \<open>
  The editor's \<^verbatim>\<open>_hex_to_rgb\<close>: after the leading \<^verbatim>\<open>#\<close> characters, six digits are
  three pairs, three digits are doubled one by one, any other length is black.
\<close>

definition hex_to_rgb :: "string \<Rightarrow> py_error + int \<times> int \<times> int" where
  "hex_to_rgb h =
     (if h = [] then Inr (0, 0, 0)
      else let h1 = lstrip_char CHR ''#'' h in
        if length h1 = 6 then hex_triple (take 2 h1) (take 2 (drop 2 h1)) (take 2 (drop 4 h1))
        else if length h1 = 3 then hex_triple [h1 ! 0, h1 ! 0] [h1 ! 1, h1 ! 1] [h1 ! 2, h1 ! 2]
        else Inr (0, 0, 0))"

section \<open>The loader of the editor: \<^verbatim>\<open>_load_from_lines\<close>\<close>

subsection \<open>Numbers of the host language\<close>

text \<open>
  The loader and the writer do no arithmetic on floats. They take the three primitives
  they use as a parameter: \<^verbatim>\<open>float(s)\<close> (\<open>None\<close> where it raises \<^verbatim>\<open>ValueError\<close>),
  \<^verbatim>\<open>int(x)\<close> of a float (which raises on an infinity or a NaN) and the format
  \<^verbatim>\<open>f"{x:.2f}"\<close>. What is proved for every such parameter holds for Python's.
\<close>

record 'r numerics =
  float_of :: "string \<Rightarrow> 'r option"
  int_of_float :: "'r \<Rightarrow> py_error + int"
  format_2f :: "'r \<Rightarrow> string"

subsection \<open>The two regular expressions\<close>

text \<open>
  The group \<^verbatim>\<open>("[^"]+"|\S+)\<close> at the head of a text: a quoted run of at least one
  character that is not a quote, or else a run of characters that are not white space.
  The result is the matched text and what follows it.
\<close>

definition match_value :: "string \<Rightarrow> (string \<times> string) option" where
  "match_value s =
     (case s of
        [] \<Rightarrow> None
      | c # t \<Rightarrow>
          if c = CHR 0x22 \<and> before_first (CHR 0x22) t \<noteq> [] \<and> CHR 0x22 \<in> set t
          then Some (c # before_first (CHR 0x22) t @ [CHR 0x22], after_first (CHR 0x22) t)
          else if is_space c then None
          else Some (takeWhile (\<lambda>x. \<not> is_space x) s, dropWhile (\<lambda>x. \<not> is_space x) s))"

text \<open>
  \<^verbatim>\<open>re.search(key + r'=("[^"]+"|\S+)', text)\<close>, group 1 of the leftmost match.
\<close>

fun search_attr :: "string \<Rightarrow> string \<Rightarrow> string option" where
  "search_attr key [] = None"
| "search_attr key (c # cs) =
     (if startswith (c # cs) (key @ ''='')
      then (case match_value (drop (length key + 1) (c # cs)) of
              Some (v, rest) \<Rightarrow> Some v
            | None \<Rightarrow> search_attr key cs)
      else search_attr key cs)"

lemma match_value_shorter: "match_value s = Some (v, rest) \<Longrightarrow> length rest \<le> length s"
proof (cases s)
  case Nil
  assume "match_value s = Some (v, rest)"
  with Nil show ?thesis by (simp add: match_value_def)
next
  case (Cons c t)
  assume m: "match_value s = Some (v, rest)"
  have "length (tl (dropWhile (\<lambda>x. x \<noteq> CHR 0x22) t))
      \<le> length (dropWhile (\<lambda>x. x \<noteq> CHR 0x22) t)"
    by simp
  also have "\<dots> \<le> length t" by (rule length_dropWhile_le)
  finally have a: "length (tl (dropWhile (\<lambda>x. x \<noteq> CHR 0x22) t)) \<le> length t" .
  have b: "length (dropWhile (\<lambda>x. \<not> is_space x) (c # t)) \<le> Suc (length t)"
    using length_dropWhile_le [of "\<lambda>x. \<not> is_space x" "c # t"] by simp
  show ?thesis
    using m a b unfolding Cons match_value_def after_first_def
    by (auto split: if_splits)
qed

text \<open>
  \<^verbatim>\<open>re.findall(r'(\w+)=("[^"]+"|\S+)', text)\<close>: at each position the longest run of word
  characters must be followed by \<^verbatim>\<open>=\<close> and a value; after a match the scan goes on
  behind it, otherwise at the next character.
\<close>

function findall_attrs :: "string \<Rightarrow> (string \<times> string) list" where
  "findall_attrs [] = []"
| "findall_attrs (c # cs) =
     (if takeWhile is_word (c # cs) \<noteq> [] \<and> startswith (dropWhile is_word (c # cs)) ''=''
      then (case match_value (tl (dropWhile is_word (c # cs))) of
              Some (v, rest) \<Rightarrow> (takeWhile is_word (c # cs), v) # findall_attrs rest
            | None \<Rightarrow> findall_attrs cs)
      else findall_attrs cs)"
  by pat_completeness auto
termination
proof (relation "measure length")
  show "wf (measure length)" by simp
next
  fix c :: char and cs x2 x y
  assume a: "takeWhile is_word (c # cs) \<noteq> [] \<and> startswith (dropWhile is_word (c # cs)) ''=''"
    and m: "match_value (tl (dropWhile is_word (c # cs))) = Some x2" and x: "(x, y) = x2"
  have ne: "dropWhile is_word (c # cs) \<noteq> []"
  proof
    assume e: "dropWhile is_word (c # cs) = []"
    from a have "startswith (dropWhile is_word (c # cs)) ''=''" by blast
    then show False unfolding e by simp
  qed
  have "length y \<le> length (tl (dropWhile is_word (c # cs)))"
    using m x match_value_shorter [of "tl (dropWhile is_word (c # cs))" x y] by simp
  also have "\<dots> < length (dropWhile is_word (c # cs))" using ne by simp
  also have "\<dots> \<le> length (c # cs)" by (rule length_dropWhile_le)
  finally show "(y, c # cs) \<in> measure length" by simp
qed simp_all

text \<open>
  A dictionary built from a list of pairs (\<^verbatim>\<open>dict(pairs)\<close>, or one assignment per
  pair): the last pair of a key is the one that counts.
\<close>

definition dict_get :: "(string \<times> string) list \<Rightarrow> string \<Rightarrow> string option" where
  "dict_get kvs k = map_of (rev kvs) k"

text \<open>Truth of a value that is a string or \<^verbatim>\<open>None\<close>, and Python's \<^verbatim>\<open>a or b\<close> on such values.\<close>

definition truthy :: "string option \<Rightarrow> bool" where
  "truthy v = (case v of None \<Rightarrow> False | Some s \<Rightarrow> s \<noteq> [])"

definition or_else :: "string option \<Rightarrow> string option \<Rightarrow> string option" where
  "or_else a b = (if truthy a then a else b)"

subsection \<open>The helpers of the loader\<close>

definition parse_style_tokens :: "string \<Rightarrow> (string \<times> string) list" where
  "parse_style_tokens style_text =
     map (\<lambda>token. (before_first CHR ''='' token,
                   strip_char (CHR 0x22) (strip (after_first CHR ''='' token))))
       (filter (\<lambda>token. CHR ''='' \<in> set token) (split_ws (strip style_text)))"

text \<open>
  The loop that reads \<^verbatim>\<open>move\<close> and \<^verbatim>\<open>line\<close> commands, which the source repeats four
  times: a piece contributes a point when its first word is \<^verbatim>\<open>move\<close> or \<^verbatim>\<open>line\<close>,
  it has at least three words and both coordinates are read by \<^verbatim>\<open>float\<close>; any other
  piece is passed over.
\<close>

definition parse_point :: "'r numerics \<Rightarrow> string \<Rightarrow> 'r point option" where
  "parse_point N piece =
     (let s2 = strip piece in
      if s2 = [] then None
      else let parts = split_ws s2 in
        if (hd parts = ''move'' \<or> hd parts = ''line'') \<and> 3 \<le> length parts
        then (case float_of N (parts ! 1) of
                None \<Rightarrow> None
              | Some x \<Rightarrow> (case float_of N (parts ! 2) of None \<Rightarrow> None | Some y \<Rightarrow> Some (x, y)))
        else None)"

definition collect_points :: "'r numerics \<Rightarrow> string \<Rightarrow> 'r point list" where
  "collect_points N text = List.map_filter (parse_point N) (splitlines text)"

text \<open>
  The loader holds the open layer in \<^verbatim>\<open>current_layer\<close>. That object is always the layer
  appended last to \<^verbatim>\<open>self.layers\<close> (the list is cleared at the start and a layer line
  appends the layer it opens), so the model keeps a flag and changes the last layer.
\<close>

definition change_last :: "('a \<Rightarrow> 'a) \<Rightarrow> 'a list \<Rightarrow> 'a list" where
  "change_last f xs = (case rev xs of [] \<Rightarrow> [] | x # front \<Rightarrow> rev front @ [f x])"

definition append_stroke :: "'r stroke \<Rightarrow> 'r layer list \<Rightarrow> 'r layer list" where
  "append_stroke st ls = change_last (\<lambda>l. l\<lparr>strokes := strokes l @ [st]\<rparr>) ls"

text \<open>The numeric suffix of an id of the form \<^verbatim>\<open>stroke_<n>\<close>, as \<^verbatim>\<open>finish_draw_block\<close> reads it.\<close>

definition stroke_number :: "string \<Rightarrow> int option" where
  "stroke_number sid =
     (if startswith sid ''stroke_'' then py_int (after_first CHR ''_'' sid) else None)"

text \<open>
  \<^verbatim>\<open>finish_draw_block\<close>. The id of a block without one is formatted first, and the
  width is converted before the stroke is appended, so an exception of either leaves the
  document as it was. The \<^verbatim>\<open>try\<close> around the update of the counter passes over the
  \<^verbatim>\<open>ValueError\<close> of \<^verbatim>\<open>int\<close>.
\<close>

definition finish_draw_block ::
  "'r numerics \<Rightarrow> bool \<Rightarrow> string option \<Rightarrow> 'r point list \<Rightarrow> (string \<times> string) list
     \<Rightarrow> 'r inkpaint \<Rightarrow> py_error + 'r inkpaint" where
  "finish_draw_block N layer_ref sid pts style_tokens d =
     (if \<not> layer_ref then Inr d
      else
        case (if truthy sid then sid
              else map_option (\<lambda>t. ''stroke_'' @ t) (py_str (stroke_counter d))) of
          None \<Rightarrow> Inl ValueError
        | Some sid1 \<Rightarrow>
            let col = the (or_else (or_else (dict_get style_tokens ''stroke'')
                                            (dict_get style_tokens ''color'')) (Some ''#000000''));
                fl = dict_get style_tokens ''fill'';
                wtext = (case dict_get style_tokens ''strokeWidth'' of
                           Some v \<Rightarrow> v
                         | None \<Rightarrow> (case dict_get style_tokens ''width'' of Some v \<Rightarrow> v | None \<Rightarrow> ''2''))
            in case float_of N wtext of
                 None \<Rightarrow> Inl ValueError
               | Some x \<Rightarrow>
                   (case int_of_float N x of
                      Inl e \<Rightarrow> Inl e
                    | Inr w \<Rightarrow>
                        let st = \<lparr>stroke_id = sid1, color = Some col, width = w, points = pts,
                                  erased = False, fill = fl\<rparr>;
                            d1 = d\<lparr>layers := append_stroke st (layers d)\<rparr>
                        in Inr (case stroke_number sid1 of
                                  None \<Rightarrow> d1
                                | Some nnum \<Rightarrow>
                                    if stroke_counter d \<le> nnum then d1\<lparr>stroke_counter := nnum + 1\<rparr>
                                    else d1)))"

text \<open>\<^verbatim>\<open>erase ref=<id>\<close>: the first stroke of the open layer with the id is marked.\<close>

definition erase_ref :: "string \<Rightarrow> 'r stroke list \<Rightarrow> 'r stroke list" where
  "erase_ref rid ss =
     (case index_where (\<lambda>s. stroke_id s = rid) ss of
        None \<Rightarrow> ss
      | Some j \<Rightarrow> ss[j := (ss ! j)\<lparr>erased := True\<rparr>])"

subsection \<open>The state machine\<close>

record 'r pstate =
  doc :: "'r inkpaint"
  current_layer :: bool
  in_draw :: bool
  draw_id :: "string option"
  draw_pts :: "'r point list"

text \<open>
  One pass of the \<^verbatim>\<open>while\<close> loop on one line. The result is the new state, or the
  exception together with the document as it stands when the exception leaves the loader.
\<close>

definition canvas_line :: "string \<Rightarrow> 'r inkpaint \<Rightarrow> 'r inkpaint" where
  "canvas_line stripped d =
     (let parts = split_ws stripped in
      if 3 \<le> length parts
      then (case py_int (parts ! 1) of
              None \<Rightarrow> d
            | Some w \<Rightarrow> (case py_int (parts ! 2) of
                           None \<Rightarrow> d\<lparr>canvas_width := w\<rparr>
                         | Some h \<Rightarrow> d\<lparr>canvas_width := w, canvas_height := h\<rparr>))
      else d)"

definition background_line :: "string \<Rightarrow> 'r inkpaint \<Rightarrow> 'r inkpaint" where
  "background_line stripped d =
     (let parts = split_ws1 stripped in
      if length parts = 2 then d\<lparr>bg_color := strip (parts ! 1)\<rparr> else d)"

text \<open>
  A layer line. The default of the name, \<^verbatim>\<open>f"Layer {lid}"\<close>, is an argument of
  \<^verbatim>\<open>attrs.get\<close> and so is formatted whether the line gives a name or not; its
  \<^verbatim>\<open>ValueError\<close> is outside the \<^verbatim>\<open>try\<close> and leaves the loader.
\<close>

definition layer_line :: "string \<Rightarrow> 'r inkpaint \<Rightarrow> py_error + 'r inkpaint" where
  "layer_line stripped d =
     (let attrs = findall_attrs stripped;
          lid = (case dict_get attrs ''id'' of
                   None \<Rightarrow> layer_counter d
                 | Some v \<Rightarrow> (case py_int v of None \<Rightarrow> layer_counter d | Some n \<Rightarrow> n))
      in case py_str lid of
           None \<Rightarrow> Inl ValueError
         | Some ltext \<Rightarrow>
             let nm = strip_char (CHR 0x22)
                        (case dict_get attrs ''name'' of None \<Rightarrow> ''Layer '' @ ltext | Some v \<Rightarrow> v);
                 vis = (case dict_get attrs ''visible'' of None \<Rightarrow> True | Some v \<Rightarrow> v = ''true'');
                 new_layer = \<lparr>layer_id = lid, name = nm, visible = vis, strokes = []\<rparr>
             in Inr (d\<lparr>layers := layers d @ [new_layer],
                      layer_counter := (if layer_counter d \<le> lid then lid + 1 else layer_counter d)\<rparr>))"

definition draw_line :: "'r numerics \<Rightarrow> string \<Rightarrow> string \<Rightarrow> 'r pstate \<Rightarrow> py_error \<times> 'r inkpaint + 'r pstate" where
  "draw_line N line stripped st =
     (let sid = map_option (strip_char (CHR 0x22)) (search_attr ''id'' stripped) in
      if CHR ''{'' \<in> set line \<and> CHR ''}'' \<in> set line
         \<and> length (before_first CHR ''{'' line) < length (before_first CHR ''}'' line)
      then
        (let inner = before_first CHR ''}'' (after_first CHR ''{'' line);
             pts = draw_pts st @ collect_points N inner;
             style = parse_style_tokens (after_first CHR ''}'' line)
         in case finish_draw_block N (current_layer st) sid pts style (doc st) of
              Inl e \<Rightarrow> Inl (e, doc st)
            | Inr d \<Rightarrow> Inr (st\<lparr>doc := d, in_draw := False, draw_id := None, draw_pts := []\<rparr>))
      else
        Inr (st\<lparr>in_draw := True, draw_id := sid,
                draw_pts := (if CHR ''{'' \<in> set line
                             then collect_points N (after_first CHR ''{'' line) else [])\<rparr>))"

definition erase_line :: "string \<Rightarrow> 'r inkpaint \<Rightarrow> 'r inkpaint" where
  "erase_line stripped d =
     (case search_attr ''ref'' stripped of
        None \<Rightarrow> d
      | Some v \<Rightarrow>
          d\<lparr>layers := change_last (\<lambda>l. l\<lparr>strokes := erase_ref (strip_char (CHR 0x22) v) (strokes l)\<rparr>)
                        (layers d)\<rparr>)"

definition load_line :: "'r numerics \<Rightarrow> 'r pstate \<Rightarrow> string \<Rightarrow> py_error \<times> 'r inkpaint + 'r pstate" where
  "load_line N st raw =
     (let line = rstrip_char (CHR 0x0A) raw; stripped = strip line in
      if stripped = [] \<or> startswith stripped ''#'' then Inr st
      else if in_draw st then
        (if CHR ''}'' \<in> set line
         then (let pts = draw_pts st @ collect_points N (before_first CHR ''}'' line);
                   style = parse_style_tokens (strip (after_first CHR ''}'' line))
               in case finish_draw_block N (current_layer st) (draw_id st) pts style (doc st) of
                    Inl e \<Rightarrow> Inl (e, doc st)
                  | Inr d \<Rightarrow> Inr (st\<lparr>doc := d, in_draw := False, draw_id := None, draw_pts := []\<rparr>))
         else Inr (st\<lparr>draw_pts := draw_pts st @ collect_points N line\<rparr>))
      else if startswith stripped ''canvas'' then Inr (st\<lparr>doc := canvas_line stripped (doc st)\<rparr>)
      else if startswith stripped ''background'' then Inr (st\<lparr>doc := background_line stripped (doc st)\<rparr>)
      else if startswith stripped ''layer''
        then (case layer_line stripped (doc st) of
                Inl e \<Rightarrow> Inl (e, doc st)
              | Inr d \<Rightarrow> Inr (st\<lparr>doc := d, current_layer := True\<rparr>))
      else if startswith stripped ''}'' then Inr (st\<lparr>current_layer := False\<rparr>)
      else if startswith stripped ''draw'' \<and> contains stripped ''path'' \<and> current_layer st
        then draw_line N line stripped st
      else if startswith stripped ''erase'' \<and> current_layer st
        then Inr (st\<lparr>doc := erase_line stripped (doc st)\<rparr>)
      else Inr st)"

fun load_loop :: "'r numerics \<Rightarrow> 'r pstate \<Rightarrow> string list \<Rightarrow> py_error \<times> 'r inkpaint + 'r pstate" where
  "load_loop N st [] = Inr st"
| "load_loop N st (raw # rest) =
     (case load_line N st raw of Inl failure \<Rightarrow> Inl failure | Inr st1 \<Rightarrow> load_loop N st1 rest)"

text \<open>
  The loader starts by clearing the layers of the document in place and resetting both
  counters; after the last line an open draw block that has collected points is finished
  with an empty style.
\<close>

definition load_start :: "'r inkpaint \<Rightarrow> 'r pstate" where
  "load_start d = \<lparr>doc = d\<lparr>layers := [], layer_counter := 1, stroke_counter := 1\<rparr>,
     current_layer = False, in_draw = False, draw_id = None, draw_pts = []\<rparr>"

definition load_finish :: "'r numerics \<Rightarrow> 'r pstate \<Rightarrow> py_error \<times> 'r inkpaint + 'r inkpaint" where
  "load_finish N st =
     (if in_draw st \<and> draw_pts st \<noteq> []
      then (case finish_draw_block N (current_layer st) (draw_id st) (draw_pts st) [] (doc st) of
              Inl e \<Rightarrow> Inl (e, doc st)
            | Inr d \<Rightarrow> Inr d)
      else Inr (doc st))"

definition load_from_lines :: "'r numerics \<Rightarrow> string list \<Rightarrow> 'r inkpaint \<Rightarrow> py_error \<times> 'r inkpaint + 'r inkpaint" where
  "load_from_lines N lines d =
     (case load_loop N (load_start d) lines of
        Inl failure \<Rightarrow> Inl failure
      | Inr st \<Rightarrow> load_finish N st)"

text \<open>The document a load leaves behind, whether it returned or raised.\<close>

definition loaded_doc :: "py_error \<times> 'r inkpaint + 'r inkpaint \<Rightarrow> 'r inkpaint" where
  "loaded_doc r = (case r of Inl (e, d) \<Rightarrow> d | Inr d \<Rightarrow> d)"

subsection \<open>Reading the file: \<^verbatim>\<open>open_inks\<close>\<close>

text \<open>
  The file is read in text mode: \<^verbatim>\<open>readlines\<close> cuts the text behind every line feed,
  after the universal newline translation. \<^verbatim>\<open>open_inks\<close> reports "Opened" (\<open>True\<close>) or,
  on any exception, "Open failed" (\<open>False\<close>); a file that cannot be read is \<open>None\<close>.
\<close>

fun universal_newlines :: "string \<Rightarrow> string" where
  "universal_newlines [] = []"
| "universal_newlines [c] = (if c = CHR 0x0D then [CHR 0x0A] else [c])"
| "universal_newlines (c # c' # cs) =
     (if c = CHR 0x0D \<and> c' = CHR 0x0A then CHR 0x0A # universal_newlines cs
      else if c = CHR 0x0D then CHR 0x0A # universal_newlines (c' # cs)
      else c # universal_newlines (c' # cs))"

fun readlines :: "string \<Rightarrow> string list" where
  "readlines [] = []"
| "readlines (c # cs) =
     (if c = CHR 0x0A then [c] # readlines cs
      else case readlines cs of [] \<Rightarrow> [[c]] | l # ls \<Rightarrow> (c # l) # ls)"


section \<open>The writer of the editor: \<^verbatim>\<open>save_inks\<close>\<close>

text \<open>
  The text that \<^verbatim>\<open>save_inks\<close> writes, one \<^verbatim>\<open>f.write\<close> after the other. An f-string
  that formats an integer can raise \<^verbatim>\<open>ValueError\<close>; \<^verbatim>\<open>save_inks\<close> then reports
  "Save failed", and the result here is the exception (the file holds what was written
  before it).
\<close>

definition point_text :: "'r numerics \<Rightarrow> string \<Rightarrow> 'r point \<Rightarrow> string" where
  "point_text N cmd p =
     ''    '' @ cmd @ '' '' @ format_2f N (fst p) @ '' '' @ format_2f N (snd p) @ [CHR 0x0A]"

definition join_space :: "string list \<Rightarrow> string" where
  "join_space pieces = (case pieces of [] \<Rightarrow> [] | p # ps \<Rightarrow> p @ concat (map (\<lambda>q. CHR '' '' # q) ps))"

fun concat_texts :: "(py_error + string) list \<Rightarrow> py_error + string" where
  "concat_texts [] = Inr []"
| "concat_texts (x # xs) =
     (case x of
        Inl e \<Rightarrow> Inl e
      | Inr t \<Rightarrow> (case concat_texts xs of Inl e \<Rightarrow> Inl e | Inr ts \<Rightarrow> Inr (t @ ts)))"

definition stroke_text :: "'r numerics \<Rightarrow> 'r stroke \<Rightarrow> py_error + string" where
  "stroke_text N s =
     (if \<not> erased s
      then (case py_str (width s) of
              None \<Rightarrow> Inl ValueError
            | Some wtext \<Rightarrow>
                Inr (''  draw path id='' @ stroke_id s @ '' {'' @ [CHR 0x0A]
                     @ (case points s of
                          [] \<Rightarrow> []
                        | p # ps \<Rightarrow> point_text N ''move'' p @ concat (map (point_text N ''line'') ps))
                     @ join_space ([''  }'']
                         @ (if truthy (color s) then [''stroke='' @ the (color s)] else [])
                         @ (if truthy (fill s) then [''fill='' @ the (fill s)] else [])
                         @ [''strokeWidth='' @ wtext])
                     @ [CHR 0x0A, CHR 0x0A]))
      else Inr (''  erase ref='' @ stroke_id s @ [CHR 0x0A]))"

definition layer_text :: "'r numerics \<Rightarrow> 'r layer \<Rightarrow> py_error + string" where
  "layer_text N l =
     (case py_str (layer_id l) of
        None \<Rightarrow> Inl ValueError
      | Some ltext \<Rightarrow>
          (case concat_texts (map (stroke_text N) (strokes l)) of
             Inl e \<Rightarrow> Inl e
           | Inr body \<Rightarrow>
               Inr (''layer id='' @ ltext @ '' name='' @ [CHR 0x22] @ name l @ [CHR 0x22]
                    @ '' visible='' @ (if visible l then ''true'' else ''false'') @ '' {'' @ [CHR 0x0A]
                    @ body
                    @ ''}'' @ [CHR 0x0A, CHR 0x0A])))"

definition save_text :: "'r numerics \<Rightarrow> 'r inkpaint \<Rightarrow> py_error + string" where
  "save_text N d =
     (case py_str (canvas_width d) of
        None \<Rightarrow> Inl ValueError
      | Some wtext \<Rightarrow>
          (case py_str (canvas_height d) of
             None \<Rightarrow> Inl ValueError
           | Some htext \<Rightarrow>
               (case concat_texts (map (layer_text N) (layers d)) of
                  Inl e \<Rightarrow> Inl e
                | Inr body \<Rightarrow>
                    Inr (''inkscript 1.0'' @ [CHR 0x0A, CHR 0x0A]
                         @ ''canvas '' @ wtext @ '' '' @ htext @ [CHR 0x0A]
                         @ ''background '' @ bg_color d @ [CHR 0x0A, CHR 0x0A]
                         @ body))))"

section \<open>Decimal numbers for the examples\<close>

text \<open>
  An instance of the number primitives for evaluating the loader on concrete text: plain
  decimal literals (white space, a sign, digits, a point, digits) read as exact reals,
  \<^verbatim>\<open>int\<close> as truncation towards zero, two decimals rounded half to even. On such
  literals it agrees with Python up to the rounding of a double; other spellings that
  Python's \<^verbatim>\<open>float\<close> accepts (exponents, \<^verbatim>\<open>inf\<close>, \<^verbatim>\<open>nan\<close>, underscores) are answered
  \<open>None\<close> here, and no example below uses one.
\<close>

definition plain_digits :: "string \<Rightarrow> nat option" where
  "plain_digits s = (if list_all (\<lambda>c. digit_in 10 c \<noteq> None) s then digits_start 10 s else None)"

definition dec_float :: "string \<Rightarrow> real option" where
  "dec_float s =
     (let t = int_strip s;
          neg = startswith t ''-'';
          u = (if startswith t ''-'' \<or> startswith t ''+'' then tl t else t);
          ip = before_first CHR ''.'' u;
          fp = (if CHR ''.'' \<in> set u then after_first CHR ''.'' u else [])
      in if ip = [] \<and> fp = [] then None
         else case (if ip = [] then Some 0 else plain_digits ip) of
                None \<Rightarrow> None
              | Some a \<Rightarrow>
                  (case (if fp = [] then Some 0 else plain_digits fp) of
                     None \<Rightarrow> None
                   | Some b \<Rightarrow>
                       Some ((if neg then - 1 else 1) * (real a + real b / 10 ^ length fp))))"

definition dec_int :: "real \<Rightarrow> py_error + int" where
  "dec_int x = Inr (if 0 \<le> x then \<lfloor>x\<rfloor> else \<lceil>x\<rceil>)"

definition round_half_even :: "real \<Rightarrow> int" where
  "round_half_even x =
     (let f = \<lfloor>x\<rfloor> in
      if x - real_of_int f < 1 / 2 then f
      else if 1 / 2 < x - real_of_int f then f + 1
      else if even f then f else f + 1)"

definition dec_format_2f :: "real \<Rightarrow> string" where
  "dec_format_2f x =
     (let h = nat (round_half_even (\<bar>x\<bar> * 100)) in
      (if x < 0 then ''-'' else '''') @ str_nat (h div 100) @ ''.''
        @ [digit_char (h mod 100 div 10), digit_char (h mod 10)])"

definition dec_numerics :: "real numerics" where
  "dec_numerics = \<lparr>float_of = dec_float, int_of_float = dec_int, format_2f = dec_format_2f\<rparr>"

section \<open>What the claims about the loader speak of\<close>

text \<open>
  The counters cover a document when every layer id is below the layer counter and every
  stroke id of the form \<^verbatim>\<open>stroke_<n>\<close> has its number below the stroke counter.
\<close>

definition stroke_covered :: "int \<Rightarrow> 'r stroke \<Rightarrow> bool" where
  "stroke_covered c s = (case stroke_number (stroke_id s) of None \<Rightarrow> True | Some n \<Rightarrow> n < c)"

definition counters_cover :: "'r inkpaint \<Rightarrow> bool" where
  "counters_cover d =
     list_all (\<lambda>l. layer_id l < layer_counter d
                 \<and> list_all (stroke_covered (stroke_counter d)) (strokes l)) (layers d)"

text \<open>A file with the layer id 12 and the stroke id \<^verbatim>\<open>stroke_77\<close>.\<close>

definition lines_12_77 :: "string list" where
  "lines_12_77 =
     [''inkscript 1.0'' @ [CHR 0x0A],
      ''layer id=12 visible=true {'' @ [CHR 0x0A],
      ''  draw path id=stroke_77 {'' @ [CHR 0x0A],
      ''    move 1.00 2.00'' @ [CHR 0x0A],
      ''    line 3.00 4.50'' @ [CHR 0x0A],
      ''  } stroke=#ff0000 strokeWidth=4'' @ [CHR 0x0A],
      ''}'' @ [CHR 0x0A]]"

text \<open>
  A file whose stroke id has a suffix of 4301 digits, all of them \<^verbatim>\<open>1\<close>: one more than
  \<^verbatim>\<open>int\<close> converts.
\<close>

definition long_digits :: string where
  "long_digits = replicate 4301 CHR ''1''"

definition lines_long_id :: "string list" where
  "lines_long_id =
     [''layer id=1 {'' @ [CHR 0x0A],
      ''  draw path id=stroke_'' @ long_digits @ '' {'' @ [CHR 0x0A],
      ''    move 1 2'' @ [CHR 0x0A],
      ''  }'' @ [CHR 0x0A],
      ''}'' @ [CHR 0x0A]]"

text \<open>The layers a load ends with, when it returns.\<close>

definition load_result_layers :: "py_error \<times> 'r inkpaint + 'r inkpaint \<Rightarrow> py_error + 'r layer list" where
  "load_result_layers r = map_sum fst layers r"

text \<open>
  Two files that end inside a draw block: in the first the block has collected no point,
  in the second two.
\<close>

definition lines_open_empty :: "string list" where
  "lines_open_empty =
     [''layer id=1 {'' @ [CHR 0x0A],
      ''  draw path id=a {'' @ [CHR 0x0A]]"

definition lines_open_two :: "string list" where
  "lines_open_two =
     [''layer id=1 {'' @ [CHR 0x0A],
      ''  draw path id=a {'' @ [CHR 0x0A],
      ''    move 1 2'' @ [CHR 0x0A],
      ''    line 3 4'' @ [CHR 0x0A]]"


text \<open>
  While a draw block is open a layer is open, and while a layer is open the document has
  a layer: the loader enters a draw block only inside a layer, and leaves the layer only
  outside a draw block.
\<close>

definition open_inv :: "'r pstate \<Rightarrow> bool" where
  "open_inv st = ((in_draw st \<longrightarrow> current_layer st) \<and> (current_layer st \<longrightarrow> layers (doc st) \<noteq> []))"

text \<open>A document whose only stroke is erased.\<close>

definition doc_erased_only :: "real inkpaint" where
  "doc_erased_only = \<lparr>canvas_width = 1000, canvas_height = 700, bg_color = ''#0b0d12'',
     layers = [\<lparr>layer_id = 1, name = ''Layer 1'', visible = True,
        strokes = [\<lparr>stroke_id = ''stroke_1'', color = Some ''#ffffff'', width = 3,
                    points = [(3, 4)], erased = True, fill = None\<rparr>]\<rparr>],
     layer_counter = 2, current_layer_index = 0, stroke_counter = 2, tool_color = ''#ffffff'',
     undo_stack = [], redo_stack = []\<rparr>"

text \<open>The text the writer produces for the document whose only stroke is erased.\<close>

definition erased_text :: string where
  "erased_text =
     ''inkscript 1.0'' @ [CHR 0x0A, CHR 0x0A]
     @ ''canvas 1000 700'' @ [CHR 0x0A]
     @ ''background #0b0d12'' @ [CHR 0x0A, CHR 0x0A]
     @ ''layer id=1 name='' @ [CHR 0x22] @ ''Layer 1'' @ [CHR 0x22] @ '' visible=true {'' @ [CHR 0x0A]
     @ ''  erase ref=stroke_1'' @ [CHR 0x0A]
     @ ''}'' @ [CHR 0x0A, CHR 0x0A]"

section \<open>The path parser of the renderer: \<^verbatim>\<open>_parse_draw\<close>\<close>

text \<open>
  The renderer (\<^verbatim>\<open>src/tools/inks_renderer.py\<close>) keeps a layer as a dictionary with a
  list of drawing commands and a style. A path command is a closure over the points, the
  stroke colour and the stroke width; the model keeps these three. Of the layer's style
  the path parser reads the stroke colour (which \<^verbatim>\<open>set stroke=none\<close> can make
  \<^verbatim>\<open>None\<close>) and the stroke width.
\<close>

record 'r path_command =
  cmd_points :: "'r point list"
  cmd_stroke :: "(int \<times> int \<times> int) option"
  cmd_sw :: int

record 'r render_layer =
  commands :: "'r path_command list"
  style_stroke :: "(int \<times> int \<times> int) option"
  style_strokeWidth :: int

text \<open>\<^verbatim>\<open>s.lower()\<close> on code points below 256.\<close>

definition lower_char :: "char \<Rightarrow> char" where
  "lower_char c = (let n = (of_char c :: nat) in
     if (65 \<le> n \<and> n \<le> 90) \<or> (192 \<le> n \<and> n \<le> 222 \<and> n \<noteq> 215) then char_of (n + 32) else c)"

definition lower :: "string \<Rightarrow> string" where
  "lower s = map lower_char s"

definition parse_attr_tokens :: "string list \<Rightarrow> (string \<times> string) list" where
  "parse_attr_tokens tokens =
     map (\<lambda>t. (before_first CHR ''='' t, after_first CHR ''='' t))
       (filter (\<lambda>t. CHR ''='' \<in> set t) tokens)"

definition reserved_words :: "string list" where
  "reserved_words = [''draw'', ''set'', ''layer'', ''transform'', ''erase'', ''canvas'', ''background'']"

text \<open>
  The look-ahead behind a closing brace that stands alone: blank lines and comments are
  passed over; the first other line is the style line when it contains \<^verbatim>\<open>=\<close> and its
  first word is no keyword, and then the lines up to it are consumed. The result is the
  style tokens and the lines that remain, or \<open>None\<close> when nothing is consumed.
\<close>

fun lookahead :: "string list \<Rightarrow> (string list \<times> string list) option" where
  "lookahead [] = None"
| "lookahead (l # rest) =
     (if strip l = [] \<or> startswith (strip l) ''#'' then lookahead rest
      else if CHR ''='' \<in> set (strip l) \<and> \<not> List.member reserved_words (hd (split_ws (strip l)))
           then Some (split_ws (strip l), rest)
      else None)"

text \<open>
  One command line of a path block: \<^verbatim>\<open>move\<close> and \<^verbatim>\<open>line\<close> give the point of their
  first two arguments, \<^verbatim>\<open>curve\<close> with at least six arguments the point of its last two;
  a line whose numbers \<^verbatim>\<open>float\<close> rejects, and any other line, gives none.
\<close>

definition path_point :: "'r numerics \<Rightarrow> string \<Rightarrow> 'r point option" where
  "path_point N stripped =
     (let parts = split_ws stripped; cmdname = lower (hd parts) in
      if (cmdname = ''move'' \<or> cmdname = ''line'') \<and> 3 \<le> length parts
      then (case float_of N (parts ! 1) of
              None \<Rightarrow> None
            | Some x \<Rightarrow> (case float_of N (parts ! 2) of None \<Rightarrow> None | Some y \<Rightarrow> Some (x, y)))
      else if cmdname = ''curve'' \<and> 7 \<le> length parts
      then (case float_of N (parts ! (length parts - 2)) of
              None \<Rightarrow> None
            | Some x \<Rightarrow> (case float_of N (last parts) of None \<Rightarrow> None | Some y \<Rightarrow> Some (x, y)))
      else None)"

text \<open>
  The loop over the lines behind the \<^verbatim>\<open>draw path\<close> line, up to the line that starts with
  the closing brace. The result is the points, the style tokens and the lines that remain
  (the source's \<open>idx\<close>).
\<close>

fun path_loop :: "'r numerics \<Rightarrow> 'r point list \<Rightarrow> string list
    \<Rightarrow> 'r point list \<times> string list \<times> string list" where
  "path_loop N pts [] = (pts, [], [])"
| "path_loop N pts (raw # rest) =
     (if strip (rstrip_char (CHR 0x0A) raw) = []
         \<or> startswith (strip (rstrip_char (CHR 0x0A) raw)) ''#''
      then path_loop N pts rest
      else if startswith (strip (rstrip_char (CHR 0x0A) raw)) ''}''
      then (if strip (tl (strip (rstrip_char (CHR 0x0A) raw))) \<noteq> []
            then (pts, split_ws (strip (tl (strip (rstrip_char (CHR 0x0A) raw)))), rest)
            else (case lookahead rest of
                    Some (style_tokens, remaining) \<Rightarrow> (pts, style_tokens, remaining)
                  | None \<Rightarrow> (pts, [], rest)))
      else (case path_point N (strip (rstrip_char (CHR 0x0A) raw)) of
              None \<Rightarrow> path_loop N pts rest
            | Some p \<Rightarrow> path_loop N (pts @ [p]) rest))"

text \<open>
  The branch \<^verbatim>\<open>kind == "path"\<close> of \<^verbatim>\<open>_parse_draw\<close>: the stroke colour and width come
  from the style tokens where they are given (\<^verbatim>\<open>parse_color\<close> and \<^verbatim>\<open>int\<close> may raise),
  from the layer's style otherwise; the command is appended to the layer.
\<close>

definition parse_draw_path :: "'r numerics \<Rightarrow> string list \<Rightarrow> 'r render_layer
    \<Rightarrow> py_error + 'r render_layer \<times> string list" where
  "parse_draw_path N lines layer =
     (case path_loop N [] lines of
        (pts, style_tokens, remaining) \<Rightarrow>
          (case (case dict_get (parse_attr_tokens style_tokens) ''stroke'' of
                   Some v \<Rightarrow> parse_color v
                 | None \<Rightarrow> Inr (style_stroke layer)) of
             Inl e \<Rightarrow> Inl e
           | Inr stroke \<Rightarrow>
               (case (case dict_get (parse_attr_tokens style_tokens) ''strokeWidth'' of
                        Some v \<Rightarrow> (case py_int v of None \<Rightarrow> Inl ValueError | Some n \<Rightarrow> Inr n)
                      | None \<Rightarrow> Inr (style_strokeWidth layer)) of
                  Inl e \<Rightarrow> Inl e
                | Inr sw \<Rightarrow>
                    Inr (layer\<lparr>commands := commands layer
                            @ [\<lparr>cmd_points = pts, cmd_stroke = stroke, cmd_sw = sw\<rparr>]\<rparr>,
                         remaining))))"

text \<open>
  The two variants of one draw block, for the editor (inside a layer) and for the renderer
  (the lines behind the \<^verbatim>\<open>draw path\<close> line), and the renderer's layer as
  \<^verbatim>\<open>_parse_layer\<close> creates it.
\<close>

definition lines_brace_tail :: "string list" where
  "lines_brace_tail =
     [''layer id=1 {'' @ [CHR 0x0A],
      ''  draw path id=s {'' @ [CHR 0x0A],
      ''    move 1 2'' @ [CHR 0x0A],
      ''    line 3 4'' @ [CHR 0x0A],
      ''  } stroke=#ff0000 strokeWidth=4'' @ [CHR 0x0A],
      ''}'' @ [CHR 0x0A]]"

definition lines_lookahead :: "string list" where
  "lines_lookahead =
     [''layer id=1 {'' @ [CHR 0x0A],
      ''  draw path id=s {'' @ [CHR 0x0A],
      ''    move 1 2'' @ [CHR 0x0A],
      ''    line 3 4'' @ [CHR 0x0A],
      ''  }'' @ [CHR 0x0A],
      ''  stroke=#ff0000 strokeWidth=4'' @ [CHR 0x0A],
      ''}'' @ [CHR 0x0A]]"

definition new_render_layer :: "real render_layer" where
  "new_render_layer = \<lparr>commands = [], style_stroke = Some (255, 255, 255), style_strokeWidth = 2\<rparr>"

section \<open>Properties\<close>

subsection \<open>Point in polygon\<close>

lemma intersect_same_side:
  "(snd a > snd p) = (snd b > snd p) \<Longrightarrow> intersect p a b = Inr False"
  by (cases p; cases a; cases b) (simp add: intersect_def)

lemma upt_two: "[0..<2] = [0, Suc 0]"
  by (simp add: upt_rec)

lemma upt_four: "[0..<4] = [0, Suc 0, 2, 3]"
  by (simp add: upt_rec)

text \<open>
  C7, as the spec states it, fails on two vertices: the \<open>1e-12\<close> in the denominator makes
  the two directions of the one edge cross the ray at different abscissas, so a point
  between them is counted once. The polygon \<open>[(0,0), (10, 2e-12)]\<close> and the point
  \<open>(1, 1e-12)\<close>: the edge forwards crosses at \<open>10/3\<close>, the edge backwards at \<open>0\<close>.
\<close>

theorem point_in_polygon_two_vertices_counterexample:
  "point_in_polygon (1, 1 / 10 ^ 12) [(0, 0), (10, 2 / 10 ^ 12)] = Inr True"
  by (simp add: point_in_polygon_def upt_two intersect_def eps12_def)

text \<open>
  C7 (amended): with fewer than two vertices the test returns false for every point; with
  two vertices it returns false whenever both lie on the same side of the point's
  ordinate; and on the square \<open>[(0,0), (10,0), (10,10), (0,10)]\<close> the point \<open>(5,5)\<close> is
  inside and \<open>(15,5)\<close> outside. (The fill tool, the function's only caller, skips
  every stroke with fewer than three points before it calls the test.)
\<close>

theorem point_in_polygon_degenerate_and_square:
  "(length polygon < 2 \<longrightarrow> point_in_polygon p polygon = Inr False)
   \<and> ((snd a > snd p) = (snd b > snd p) \<longrightarrow> point_in_polygon p [a, b] = Inr False)
   \<and> point_in_polygon (5, 5) [(0, 0), (10, 0), (10, 10), (0, 10)] = Inr True
   \<and> point_in_polygon (15, 5) [(0, 0), (10, 0), (10, 10), (0, 10)] = Inr False"
proof (intro conjI impI)
  assume short: "length polygon < 2"
  show "point_in_polygon p polygon = Inr False"
  proof (cases polygon)
    case Nil
    then show ?thesis by (simp add: point_in_polygon_def)
  next
    case (Cons v vs)
    with short have "vs = []" by simp
    with Cons show ?thesis
      by (simp add: point_in_polygon_def intersect_same_side)
  qed
next
  assume side: "(snd a > snd p) = (snd b > snd p)"
  then have "intersect p a b = Inr False" and "intersect p b a = Inr False"
    by (simp_all add: intersect_same_side)
  then show "point_in_polygon p [a, b] = Inr False"
    by (simp add: point_in_polygon_def upt_two)
next
  show "point_in_polygon (5, 5) [(0, 0), (10, 0), (10, 10), (0, 10)] = Inr True"
    by (simp add: point_in_polygon_def upt_four intersect_def eps12_def)
next
  show "point_in_polygon (15, 5) [(0, 0), (10, 0), (10, 10), (0, 10)] = Inr False"
    by (simp add: point_in_polygon_def upt_four intersect_def eps12_def)
qed

theorem point_in_polygon_degenerate_and_square_witness:
  "length [(3 :: real, 4 :: real)] < 2
   \<and> point_in_polygon (0, 0) [(3, 4)] = Inr False
   \<and> (snd (0 :: real, 5 :: real) > snd (1 :: real, 1 :: real))
       = (snd (10 :: real, 7 :: real) > snd (1 :: real, 1 :: real))
   \<and> point_in_polygon (1, 1) [(0, 5), (10, 7)] = Inr False"
  using point_in_polygon_degenerate_and_square
    [where polygon = "[(3, 4)]" and p = "(0, 0)" and a = "(0, 5)" and b = "(10, 7)"]
    point_in_polygon_degenerate_and_square
    [where polygon = "[]" and p = "(1, 1)" and a = "(0, 5)" and b = "(10, 7)"]
  by simp

subsection \<open>Eraser hit test\<close>

lemma distance_le_iff:
  "0 \<le> r \<Longrightarrow> distance p q \<le> r \<longleftrightarrow>
     (fst p - fst q) * (fst p - fst q) + (snd p - snd q) * (snd p - snd q) \<le> r * r"
proof -
  assume r: "0 \<le> r"
  have "distance p q \<le> r \<longleftrightarrow> sqrt ((fst p - fst q)\<^sup>2 + (snd p - snd q)\<^sup>2) \<le> sqrt (r\<^sup>2)"
    using r by (simp add: distance_def)
  also have "\<dots> \<longleftrightarrow> (fst p - fst q)\<^sup>2 + (snd p - snd q)\<^sup>2 \<le> r\<^sup>2"
    by (rule real_sqrt_le_iff)
  finally show ?thesis by (simp add: power2_eq_square)
qed

text \<open>In exact arithmetic, and for a radius that is not negative, the check is the distance test.\<close>

lemma hit_exact_iff_within: "0 \<le> r \<Longrightarrow> hit exact_arith path r s = within_radius path r s"
  by (simp add: hit_def close_enough_def exact_arith_def within_radius_def distance_le_iff Let_def)




lemma bit_length_numeral [simp]:
  "bit_length (numeral k) = 1 + bit_length (numeral k div 2)"
  "bit_length 1 = 1" "bit_length 0 = 0"
  by (simp_all add: bit_length.simps)




subsection \<open>Undo and redo leave the frame of the document alone\<close>

lemma layer_frame_set_strokes: "map layer_frame (set_strokes k ss ls) = map layer_frame ls"
proof (cases "k < length ls")
  case True
  then show ?thesis
    by (simp add: set_strokes_def map_update layer_frame_def list_update_same_conv)
next
  case False
  then have "ls[k := (ls ! k)\<lparr>strokes := ss\<rparr>] = ls"
    by (intro list_update_beyond) simp
  then show ?thesis by (simp add: set_strokes_def)
qed

lemma layer_frame_update_stroke: "map layer_frame (update_stroke i j f ls) = map layer_frame ls"
  by (simp add: update_stroke_def layer_frame_set_strokes)

lemma layer_frame_set_points: "map layer_frame (set_points b snaps ls) = map layer_frame ls"
  unfolding set_points_def
  by (induction snaps arbitrary: ls)
     (auto simp: layer_frame_update_stroke split: option.splits prod.splits)

lemma doc_frame_undo: "doc_frame (undo d) = doc_frame d"
  by (auto simp: undo_def doc_frame_def Let_def layer_frame_set_strokes layer_frame_set_points
      split: action.splits option.splits)

lemma doc_frame_redo: "doc_frame (redo d) = doc_frame d"
  by (auto simp: redo_def doc_frame_def Let_def layer_frame_set_strokes layer_frame_set_points
      split: action.splits option.splits)

lemma doc_frame_history_step: "doc_frame (history_step c d) = doc_frame d"
  by (cases c) (simp_all add: doc_frame_undo doc_frame_redo)

text \<open>
  C10: for every document state and every sequence of \<^verbatim>\<open>undo()\<close> and \<^verbatim>\<open>redo()\<close>
  calls, the list of layers keeps its length and order, every layer keeps its id, name and
  visibility, and the canvas width, canvas height and background colour are unchanged.
\<close>

theorem undo_redo_frame: "doc_frame (replay calls d) = doc_frame d"
  unfolding replay_def
  by (induction calls arbitrary: d) (simp_all add: doc_frame_history_step)

theorem undo_redo_frame_witness:
  "doc_frame (replay [Undo, Undo, Redo]
      (doc_triangle\<lparr>undo_stack := [ActionEraseStrokes 1 [''stroke_1'']]\<rparr>))
   = ([(1, ''Layer 1'', True)], 1000, 700, ''#0b0d12'')"
  using undo_redo_frame
    [of "[Undo, Undo, Redo]" "doc_triangle\<lparr>undo_stack := [ActionEraseStrokes 1 [''stroke_1'']]\<rparr>"]
  by (simp add: doc_frame_def doc_triangle_def layer_frame_def)

subsection \<open>Undo of a fill\<close>

text \<open>
  C2 fails on the fill operation. On the document \<open>doc_triangle\<close> the fill tool at
  \<open>(2, 2)\<close> fills the triangle and logs it as an add entry; the undo that follows removes
  the triangle from its layer instead of restoring its empty fill.
\<close>

theorem fill_then_undo_removes_stroke:
  "map_sum id (\<lambda>d. map strokes (layers d)) (apply_fill_at 2 2 doc_triangle)
     = Inr [[\<lparr>stroke_id = ''stroke_1'', color = Some ''#ffffff'', width = 3,
              points = [(0, 0), (10, 0), (0, 10)], erased = False, fill = Some ''#ff0000''\<rparr>]]
   \<and> map_sum id (\<lambda>d. map strokes (layers (undo d))) (apply_fill_at 2 2 doc_triangle) = Inr [[]]"
  by (simp add: apply_fill_at_def doc_triangle_def current_layer_pos_def enumerate_eq_zip
      point_in_polygon_def intersect_def eps12_def upt_rec update_stroke_def set_strokes_def
      undo_def layer_by_id_def Let_def)

subsection \<open>Colour syntax\<close>

text \<open>
  C9 fails in the renderer: \<^verbatim>\<open>parse_color\<close> accepts only the seven-character form and
  raises \<^verbatim>\<open>ValueError\<close> on \<^verbatim>\<open>#fff\<close>, which the renderer's own comments and docstring
  use as the example colour; the editor's \<^verbatim>\<open>_hex_to_rgb\<close> reads both forms, in either
  case of the digits.
\<close>

theorem parse_color_rejects_short_form:
  "parse_color ''#fff'' = Inl ValueError
   \<and> parse_color ''#ffffff'' = Inr (Some (255, 255, 255))
   \<and> parse_color ''#FFFFFF'' = Inr (Some (255, 255, 255))
   \<and> hex_to_rgb ''#fff'' = Inr (255, 255, 255)
   \<and> hex_to_rgb ''#FfF'' = Inr (255, 255, 255)
   \<and> hex_to_rgb ''#ffffff'' = Inr (255, 255, 255)"
  by code_simp

subsection \<open>The loader advances the counters\<close>

lemma change_last_Nil [simp]: "change_last f [] = []"
  by (simp add: change_last_def)

lemma change_last_snoc [simp]: "change_last f (xs @ [x]) = xs @ [f x]"
  by (simp add: change_last_def)

lemma change_last_eq: "xs \<noteq> [] \<Longrightarrow> change_last f xs = butlast xs @ [f (last xs)]"
  by (cases xs rule: rev_cases) simp_all

lemma list_all_change_last:
  "list_all P xs \<Longrightarrow> (\<And>x. P x \<Longrightarrow> P (f x)) \<Longrightarrow> list_all P (change_last f xs)"
  by (cases xs rule: rev_cases) simp_all

lemma stroke_covered_mono: "stroke_covered c s \<Longrightarrow> c \<le> c' \<Longrightarrow> stroke_covered c' s"
  by (auto simp: stroke_covered_def split: option.splits)

lemma counters_cover_mono:
  assumes "counters_cover d" and "layers d' = layers d"
    and "layer_counter d \<le> layer_counter d'" and "stroke_counter d \<le> stroke_counter d'"
  shows "counters_cover d'"
  using assms unfolding counters_cover_def list_all_iff
  by (fastforce intro: stroke_covered_mono)

lemma counters_cover_append:
  assumes "counters_cover d" and "layers d' = append_stroke st (layers d)"
    and "layer_counter d' = layer_counter d" and "stroke_counter d \<le> stroke_counter d'"
    and "stroke_covered (stroke_counter d') st"
  shows "counters_cover d'"
proof -
  have "list_all (\<lambda>l. layer_id l < layer_counter d'
            \<and> list_all (stroke_covered (stroke_counter d')) (strokes l)) (layers d)"
    using assms(1,3,4) unfolding counters_cover_def list_all_iff
    by (fastforce intro: stroke_covered_mono)
  then show ?thesis
    unfolding counters_cover_def assms(2) append_stroke_def
    by (rule list_all_change_last) (simp add: assms(5))
qed

lemma counters_cover_finish:
  assumes "counters_cover d" and "finish_draw_block N lr sid pts style d = Inr d'"
  shows "counters_cover d'"
proof (cases lr)
  case False
  with assms show ?thesis by (simp add: finish_draw_block_def)
next
  case True
  define osid where "osid = (if truthy sid then sid
     else map_option (\<lambda>t. ''stroke_'' @ t) (py_str (stroke_counter d)))"
  from assms(2) True obtain sid1 where s1: "osid = Some sid1"
    unfolding finish_draw_block_def osid_def [symmetric] by (cases osid) simp_all
  define col where "col = the (or_else (or_else (dict_get style ''stroke'')
                                        (dict_get style ''color'')) (Some ''#000000''))"
  define mk :: "int \<Rightarrow> 'a stroke" where "mk w = \<lparr>stroke_id = sid1, color = Some col, width = w,
     points = pts, erased = False, fill = dict_get style ''fill''\<rparr>" for w
  have "\<exists>w. d' = (case stroke_number sid1 of
              None \<Rightarrow> d\<lparr>layers := append_stroke (mk w) (layers d)\<rparr>
            | Some nnum \<Rightarrow>
                if stroke_counter d \<le> nnum
                then d\<lparr>layers := append_stroke (mk w) (layers d), stroke_counter := nnum + 1\<rparr>
                else d\<lparr>layers := append_stroke (mk w) (layers d)\<rparr>)"
    using assms(2) True
    unfolding finish_draw_block_def Let_def osid_def [symmetric] s1 col_def [symmetric] mk_def
    by (auto split: option.splits sum.splits)
  then obtain w where d': "d' = (case stroke_number sid1 of
              None \<Rightarrow> d\<lparr>layers := append_stroke (mk w) (layers d)\<rparr>
            | Some nnum \<Rightarrow>
                if stroke_counter d \<le> nnum
                then d\<lparr>layers := append_stroke (mk w) (layers d), stroke_counter := nnum + 1\<rparr>
                else d\<lparr>layers := append_stroke (mk w) (layers d)\<rparr>)" ..
  have id: "stroke_id (mk w) = sid1" by (simp add: mk_def)
  show ?thesis
  proof (rule counters_cover_append [OF assms(1), where st = "mk w"])
    show "layers d' = append_stroke (mk w) (layers d)"
      by (simp add: d' split: option.splits)
    show "layer_counter d' = layer_counter d"
      by (simp add: d' split: option.splits)
    show "stroke_counter d \<le> stroke_counter d'"
      by (simp add: d' split: option.splits)
    show "stroke_covered (stroke_counter d') (mk w)"
      by (simp add: d' stroke_covered_def id split: option.splits)
  qed
qed

lemma layer_line_shape:
  assumes "layer_line stripped d = Inr d'"
  shows "\<exists>nl. layers d' = layers d @ [nl] \<and> strokes nl = [] \<and> layer_id nl < layer_counter d'
           \<and> layer_counter d \<le> layer_counter d' \<and> stroke_counter d' = stroke_counter d"
  using assms unfolding layer_line_def Let_def
  by (auto split: option.splits if_splits)

lemma counters_cover_layer_line:
  assumes "counters_cover d" and "layer_line stripped d = Inr d'"
  shows "counters_cover d'"
proof -
  from layer_line_shape [OF assms(2)] obtain nl where nl: "layers d' = layers d @ [nl]"
    "strokes nl = []" "layer_id nl < layer_counter d'" "layer_counter d \<le> layer_counter d'"
    "stroke_counter d' = stroke_counter d" by blast
  have "layer_id l < layer_counter d'" if "l \<in> set (layers d)" for l
    using assms(1) that nl(4) unfolding counters_cover_def list_all_iff by fastforce
  then show ?thesis
    using assms(1) nl(1,2,3,5) unfolding counters_cover_def list_all_iff by auto
qed

lemma index_where_less: "index_where P xs = Some j \<Longrightarrow> j < length xs"
  by (induction xs arbitrary: j) (auto split: if_splits)

lemma index_where_holds: "index_where P xs = Some j \<Longrightarrow> P (xs ! j)"
  by (induction xs arbitrary: j) (auto split: if_splits)

lemma list_all_update: "list_all P xs \<Longrightarrow> P y \<Longrightarrow> list_all P (xs[j := y])"
  unfolding list_all_iff using set_update_subset_insert [of xs j y] by auto

lemma erase_ref_covered:
  assumes "list_all (stroke_covered c) ss"
  shows "list_all (stroke_covered c) (erase_ref rid ss)"
proof (cases "index_where (\<lambda>s. stroke_id s = rid) ss")
  case None
  with assms show ?thesis by (simp add: erase_ref_def)
next
  case (Some j)
  then have "j < length ss" by (rule index_where_less)
  with assms have "stroke_covered c (ss ! j)" by (simp add: list_all_length)
  then have "stroke_covered c ((ss ! j)\<lparr>erased := True\<rparr>)" by (simp add: stroke_covered_def)
  with assms Some show ?thesis by (simp add: erase_ref_def list_all_update)
qed

lemma counters_cover_erase_line: "counters_cover d \<Longrightarrow> counters_cover (erase_line stripped d)"
  unfolding counters_cover_def erase_line_def
  by (auto split: option.splits intro!: list_all_change_last erase_ref_covered)

lemma counters_cover_canvas_line: "counters_cover d \<Longrightarrow> counters_cover (canvas_line stripped d)"
  by (auto simp: counters_cover_def canvas_line_def Let_def split: option.splits)

lemma counters_cover_background_line: "counters_cover d \<Longrightarrow> counters_cover (background_line stripped d)"
  by (auto simp: counters_cover_def background_line_def Let_def)

lemma load_line_fail_doc: "load_line N st raw = Inl (e, d') \<Longrightarrow> d' = doc st"
  unfolding load_line_def draw_line_def Let_def
  by (auto split: if_splits sum.splits)

lemma counters_cover_load_line:
  assumes "counters_cover (doc st)" and "load_line N st raw = Inr st'"
  shows "counters_cover (doc st')"
  using assms unfolding load_line_def draw_line_def Let_def
  by (auto split: if_splits sum.splits
      intro: counters_cover_finish counters_cover_layer_line counters_cover_erase_line
        counters_cover_canvas_line counters_cover_background_line)

lemma counters_cover_load_loop:
  "counters_cover (doc st) \<Longrightarrow> counters_cover (case load_loop N st lines of Inl (e, d) \<Rightarrow> d | Inr st' \<Rightarrow> doc st')"
proof (induction lines arbitrary: st)
  case Nil
  then show ?case by simp
next
  case (Cons raw rest)
  show ?case
  proof (cases "load_line N st raw")
    case (Inl failure)
    obtain e d' where f: "failure = (e, d')" by (cases failure)
    with Inl have "d' = doc st" by (auto dest: load_line_fail_doc)
    with Inl f Cons.prems show ?thesis by simp
  next
    case (Inr st1)
    with Cons.prems have "counters_cover (doc st1)" by (auto intro: counters_cover_load_line)
    from Cons.IH [OF this] Inr show ?thesis by simp
  qed
qed

lemma counters_cover_start: "counters_cover (doc (load_start d))"
  by (simp add: counters_cover_def load_start_def)

lemma load_counters_cover: "counters_cover (loaded_doc (load_from_lines N lines d))"
proof (cases "load_loop N (load_start d) lines")
  case (Inl failure)
  with counters_cover_load_loop [OF counters_cover_start, of N d lines]
  show ?thesis by (simp add: load_from_lines_def loaded_doc_def)
next
  case (Inr st)
  with counters_cover_load_loop [OF counters_cover_start, of N d lines]
  have c: "counters_cover (doc st)" by simp
  show ?thesis
  proof (cases "load_finish N st")
    case (Inl failure)
    obtain e d' where f: "failure = (e, d')" by (cases failure)
    with Inl have "d' = doc st"
      by (auto simp: load_finish_def split: if_splits sum.splits)
    with Inl Inr c f show ?thesis
      by (simp add: load_from_lines_def loaded_doc_def)
  next
    case (Inr d')
    then have "counters_cover d'"
      using c by (auto simp: load_finish_def split: if_splits sum.splits intro: counters_cover_finish)
    with Inr \<open>load_loop N (load_start d) lines = Inr st\<close> show ?thesis
      by (simp add: load_from_lines_def loaded_doc_def)
  qed
qed


lemma of_char_digit_char: "k < 10 \<Longrightarrow> (of_char (digit_char k) :: nat) = 48 + k"
  by (simp add: digit_char_def)

lemma digit_in_digit_char: "k < 10 \<Longrightarrow> digit_in 10 (digit_char k) = Some k"
  by (simp add: digit_in_def digit_val_def of_char_digit_char)

lemma digit_char_not_int_space: "k < 10 \<Longrightarrow> \<not> is_int_space (digit_char k)"
  by (simp add: is_int_space_def of_char_digit_char)

lemma digit_char_neq:
  assumes "k < 10"
  shows "digit_char k \<noteq> CHR ''_''" and "digit_char k \<noteq> CHR ''-''" and "digit_char k \<noteq> CHR ''+''"
proof -
  have "(of_char (digit_char k) :: nat) \<noteq> of_char CHR ''_''"
    and "(of_char (digit_char k) :: nat) \<noteq> of_char CHR ''-''"
    and "(of_char (digit_char k) :: nat) \<noteq> of_char CHR ''+''"
    using assms by (simp_all add: of_char_digit_char)
  then show "digit_char k \<noteq> CHR ''_''" and "digit_char k \<noteq> CHR ''-''" and "digit_char k \<noteq> CHR ''+''"
    by auto
qed

lemma digits_value_step:
  "c \<noteq> CHR ''_'' \<Longrightarrow> digits_value b acc (c # rest) =
     (case digit_in b c of None \<Rightarrow> None | Some v \<Rightarrow> digits_value b (acc * b + v) rest)"
  by (cases rest) (auto split: option.splits)

lemma digits_value_digits:
  "list_all (\<lambda>k. k < 10) ds \<Longrightarrow>
     digits_value 10 acc (map digit_char ds) = Some (foldl (\<lambda>a k. a * 10 + k) acc ds)"
proof (induction ds arbitrary: acc)
  case Nil
  then show ?case by simp
next
  case (Cons k ks)
  then have k: "k < 10" and ks: "list_all (\<lambda>k. k < 10) ks" by simp_all
  show ?case
    using Cons.IH [OF ks] by (simp add: digits_value_step digit_char_neq [OF k] digit_in_digit_char [OF k])
qed

lemma str_nat_digits:
  "\<exists>ds. str_nat n = map digit_char ds \<and> ds \<noteq> [] \<and> list_all (\<lambda>k. k < 10) ds
        \<and> foldl (\<lambda>a k. a * 10 + k) 0 ds = n"
proof (induction n rule: str_nat.induct)
  case (1 n)
  show ?case
  proof (cases "n < 10")
    case True
    have "str_nat n = map digit_char [n]" using True by (simp add: str_nat.simps)
    with True show ?thesis by (intro exI [of _ "[n]"]) simp
  next
    case False
    from 1 [OF False] obtain ds where ds: "str_nat (n div 10) = map digit_char ds" "ds \<noteq> []"
      "list_all (\<lambda>k. k < 10) ds" "foldl (\<lambda>a k. a * 10 + k) 0 ds = n div 10" by blast
    have "str_nat n = map digit_char (ds @ [n mod 10])"
      using False ds(1) by (subst str_nat.simps) simp
    moreover have "foldl (\<lambda>a k. a * 10 + k) 0 (ds @ [n mod 10]) = n"
      using ds(4) by simp
    ultimately show ?thesis
      using ds(2,3) by (intro exI [of _ "ds @ [n mod 10]"]) simp
  qed
qed

lemma int_strip_no_space: "list_all (\<lambda>c. \<not> is_int_space c) s \<Longrightarrow> int_strip s = s"
proof -
  assume a: "list_all (\<lambda>c. \<not> is_int_space c) s"
  have d: "dropWhile is_int_space xs = xs" if "list_all (\<lambda>c. \<not> is_int_space c) xs" for xs
    using that by (cases xs) simp_all
  have "list_all (\<lambda>c. \<not> is_int_space c) (rev s)" using a by (simp add: list_all_iff)
  then have "rev (dropWhile is_int_space (rev s)) = s" by (simp add: d)
  then show ?thesis using a by (simp add: int_strip_def d)
qed

lemma filter_digit_chars:
  "list_all (\<lambda>k. k < 10) ds \<Longrightarrow> filter (\<lambda>c. c \<noteq> CHR ''_'') (map digit_char ds) = map digit_char ds"
  by (induction ds) (simp_all add: digit_char_neq)

lemma not_power_of_two_10: "(10 :: nat) \<notin> set [2, 4, 8, 16, 32]"
  by simp

text \<open>What \<^verbatim>\<open>str\<close> writes, \<^verbatim>\<open>int\<close> reads back.\<close>

lemma py_int_py_str:
  assumes "py_str i = Some t"
  shows "py_int t = Some i"
proof -
  obtain ds where ds: "str_nat (nat \<bar>i\<bar>) = map digit_char ds" "ds \<noteq> []"
      "list_all (\<lambda>k. k < 10) ds" "foldl (\<lambda>a k. a * 10 + k) 0 ds = nat \<bar>i\<bar>"
    using str_nat_digits by blast
  from assms have len: "\<not> max_str_digits < int (length ds)" and t: "t = str_int i"
    by (auto simp: py_str_def ds(1) split: if_splits)
  obtain k ks where kk: "ds = k # ks" using ds(2) by (cases ds) auto
  have k: "k < 10" and ks: "list_all (\<lambda>k. k < 10) ks" using ds(3) kk by simp_all
  have val: "digits_start 10 (map digit_char ds) = Some (nat \<bar>i\<bar>)"
    using digits_value_digits [OF ks, of k] ds(4) kk
    by (simp add: digits_start_def digit_in_digit_char [OF k])
  have flt: "filter (\<lambda>c. c \<noteq> CHR ''_'') (map digit_char ds) = map digit_char ds"
    using ds(3) by (rule filter_digit_chars)
  show ?thesis
  proof (cases "i < 0")
    case False
    then have ti: "t = map digit_char ds" using t ds(1) by (simp add: str_int_def)
    have ns: "list_all (\<lambda>c. \<not> is_int_space c) (map digit_char ds)"
      using ds(3) by (simp add: list_all_iff digit_char_not_int_space)
    have st: "int_strip t = digit_char k # map digit_char ks"
      using int_strip_no_space [OF ns] ti kk by simp
    show ?thesis
      unfolding py_int_def py_int_base_def st Let_def
      using digit_char_neq [OF k] val flt len False
      by (simp add: kk not_power_of_two_10)
  next
    case True
    then have ti: "t = CHR ''-'' # map digit_char ds"
      using t ds(1) by (simp add: str_int_def)
    have minus: "\<not> is_int_space CHR ''-''" by (simp add: is_int_space_def)
    have ns: "list_all (\<lambda>c. \<not> is_int_space c) (CHR ''-'' # map digit_char ds)"
      using ds(3) minus by (simp add: list_all_iff digit_char_not_int_space)
    have st: "int_strip t = CHR ''-'' # digit_char k # map digit_char ks"
      using int_strip_no_space [OF ns] ti kk by simp
    show ?thesis
      unfolding py_int_def py_int_base_def st Let_def
      using val flt len True
      by (simp add: kk not_power_of_two_10)
  qed
qed

lemma stroke_number_synthesized: "py_str c = Some t \<Longrightarrow> stroke_number (''stroke_'' @ t) = Some c"
  by (simp add: stroke_number_def after_first_def py_int_py_str)

text \<open>The load of \<open>lines_long_id\<close>, line by line.\<close>

lemma long_digits_facts:
  "rev long_digits = long_digits" "set long_digits = {CHR ''1''}" "length long_digits = 4301"
  "long_digits \<noteq> []"
  by (simp_all add: long_digits_def)

lemma long_digits_while:
  "P CHR ''1'' \<Longrightarrow> takeWhile P (long_digits @ ys) = long_digits @ takeWhile P ys"
  "P CHR ''1'' \<Longrightarrow> dropWhile P (long_digits @ ys) = dropWhile P ys"
  "\<not> P CHR ''1'' \<Longrightarrow> dropWhile P (long_digits @ ys) = long_digits @ ys"
  "\<not> P CHR ''1'' \<Longrightarrow> dropWhile P long_digits = long_digits"
  "P CHR ''1'' \<Longrightarrow> filter P long_digits = long_digits"
proof -
  have c: "long_digits = CHR ''1'' # replicate 4300 CHR ''1''"
    unfolding long_digits_def by (simp only: replicate_Suc [symmetric]) simp
  show "P CHR ''1'' \<Longrightarrow> takeWhile P (long_digits @ ys) = long_digits @ takeWhile P ys"
    by (rule takeWhile_append2) (simp add: long_digits_def)
  show "P CHR ''1'' \<Longrightarrow> dropWhile P (long_digits @ ys) = dropWhile P ys"
    by (rule dropWhile_append2) (simp add: long_digits_def)
  show "\<not> P CHR ''1'' \<Longrightarrow> dropWhile P (long_digits @ ys) = long_digits @ ys"
    by (simp add: c)
  show "\<not> P CHR ''1'' \<Longrightarrow> dropWhile P long_digits = long_digits"
    by (simp add: c)
  show "P CHR ''1'' \<Longrightarrow> filter P long_digits = long_digits"
    by (simp add: long_digits_def)
qed

lemma long_digits_startswith: "c \<noteq> CHR ''1'' \<Longrightarrow> startswith long_digits (c # cs) = False"
proof -
  have c: "long_digits = CHR ''1'' # replicate 4300 CHR ''1''"
    unfolding long_digits_def by (simp only: replicate_Suc [symmetric]) simp
  show "c \<noteq> CHR ''1'' \<Longrightarrow> startswith long_digits (c # cs) = False"
    by (auto simp: c)
qed

lemma py_int_long_digits: "py_int long_digits = None"
proof -
  have sp: "\<not> is_int_space CHR ''1''" by (simp add: is_int_space_def)
  have st: "int_strip long_digits = long_digits"
    by (simp add: int_strip_def long_digits_facts long_digits_while(4) sp)
  show ?thesis
    unfolding py_int_def py_int_base_def st Let_def
    by (simp add: long_digits_startswith long_digits_while(5) long_digits_facts max_str_digits_def)
qed

lemma stroke_number_long: "stroke_number (''stroke_'' @ long_digits) = None"
  by (simp add: stroke_number_def after_first_def py_int_long_digits)

lemma long_line:
  "rstrip_char (CHR 0x0A) (''  draw path id=stroke_'' @ long_digits @ '' {'' @ [CHR 0x0A])
     = ''  draw path id=stroke_'' @ long_digits @ '' {''"
  "strip (''  draw path id=stroke_'' @ long_digits @ '' {'')
     = ''draw path id=stroke_'' @ long_digits @ '' {''"
  "search_attr ''id'' (''draw path id=stroke_'' @ long_digits @ '' {'')
     = Some (''stroke_'' @ long_digits)"
  "strip_char (CHR 0x22) (''stroke_'' @ long_digits) = ''stroke_'' @ long_digits"
  "CHR ''{'' \<in> set (''  draw path id=stroke_'' @ long_digits @ '' {'')"
  "CHR ''}'' \<notin> set (''  draw path id=stroke_'' @ long_digits @ '' {'')"
  "after_first CHR ''{'' (''  draw path id=stroke_'' @ long_digits @ '' {'') = []"
  "contains (''draw path id=stroke_'' @ long_digits @ '' {'') ''path''"
  by (simp_all add: rstrip_char_def strip_def lstrip_def rstrip_def is_space_def strip_char_def
      lstrip_char_def long_digits_facts long_digits_while match_value_def before_first_def
      after_first_def)

lemmas long_line_cons = long_line [unfolded append.simps]

lemma load_loop_step:
  "load_line N st raw = Inr st1 \<Longrightarrow> load_loop N st (raw # rest) = load_loop N st1 rest"
  by simp

lemma load_long_id:
  "load_from_lines dec_numerics lines_long_id doc_triangle
     = Inr (doc_triangle\<lparr>layers := [\<lparr>layer_id = 1, name = ''Layer 1'', visible = True,
                strokes = [\<lparr>stroke_id = ''stroke_'' @ long_digits, color = Some ''#000000'',
                            width = 2, points = [(1, 2)], erased = False, fill = None\<rparr>]\<rparr>],
              layer_counter := 2, stroke_counter := 1\<rparr>)"
proof -
  define D0 where "D0 = doc_triangle\<lparr>layers := [\<lparr>layer_id = 1, name = ''Layer 1'', visible = True,
      strokes = []\<rparr>], layer_counter := 2, stroke_counter := 1\<rparr>"
  define D1 where "D1 = doc_triangle\<lparr>layers := [\<lparr>layer_id = 1, name = ''Layer 1'', visible = True,
                strokes = [\<lparr>stroke_id = ''stroke_'' @ long_digits, color = Some ''#000000'',
                            width = 2, points = [(1, 2)], erased = False, fill = None\<rparr>]\<rparr>],
              layer_counter := 2, stroke_counter := 1\<rparr>"
  have s1: "load_line dec_numerics (load_start doc_triangle) (''layer id=1 {'' @ [CHR 0x0A])
      = Inr \<lparr>doc = D0, current_layer = True, in_draw = False, draw_id = None, draw_pts = []\<rparr>"
    unfolding D0_def by code_simp
  have s2: "load_line dec_numerics
        \<lparr>doc = D0, current_layer = True, in_draw = False, draw_id = None, draw_pts = []\<rparr>
        (''  draw path id=stroke_'' @ long_digits @ '' {'' @ [CHR 0x0A])
      = Inr \<lparr>doc = D0, current_layer = True, in_draw = True,
              draw_id = Some (''stroke_'' @ long_digits), draw_pts = []\<rparr>"
    unfolding load_line_def draw_line_def Let_def long_line
    by (simp add: long_line_cons long_digits_facts collect_points_def List.map_filter_simps)
  have s3: "load_line dec_numerics
        \<lparr>doc = D, current_layer = True, in_draw = True, draw_id = i, draw_pts = []\<rparr>
        (''    move 1 2'' @ [CHR 0x0A])
      = Inr \<lparr>doc = D, current_layer = True, in_draw = True, draw_id = i, draw_pts = [(1, 2)]\<rparr>"
    for D i
    by code_simp
  have k: "rstrip_char (CHR 0x0A) (''  }'' @ [CHR 0x0A]) = ''  }''" "strip ''  }'' = ''}''"
    "CHR ''}'' \<in> set ''  }''"
    "collect_points dec_numerics (before_first CHR ''}'' ''  }'') = []"
    "parse_style_tokens (strip (after_first CHR ''}'' ''  }'')) = []"
    "rstrip_char (CHR 0x0A) (''}'' @ [CHR 0x0A]) = ''}''" "strip ''}'' = ''}''"
    by code_simp+
  have f2: "float_of dec_numerics ''2'' = Some 2" by code_simp
  have i2: "int_of_float dec_numerics 2 = Inr 2" by code_simp
  have fin: "finish_draw_block dec_numerics True (Some (''stroke_'' @ long_digits)) [(1, 2)] [] D0
      = Inr D1"
    by (simp add: finish_draw_block_def truthy_def dict_get_def or_else_def
        stroke_number_long [unfolded append.simps] f2 i2 append_stroke_def change_last_def Let_def D0_def D1_def)
  have s4: "load_line dec_numerics
        \<lparr>doc = D0, current_layer = True, in_draw = True,
          draw_id = Some (''stroke_'' @ long_digits), draw_pts = [(1, 2)]\<rparr>
        (''  }'' @ [CHR 0x0A])
      = Inr \<lparr>doc = D1, current_layer = True, in_draw = False, draw_id = None, draw_pts = []\<rparr>"
    unfolding load_line_def Let_def k
    by (simp add: fin [unfolded append.simps])
  have s5: "load_line dec_numerics
        \<lparr>doc = D1, current_layer = True, in_draw = False, draw_id = None, draw_pts = []\<rparr>
        (''}'' @ [CHR 0x0A])
      = Inr \<lparr>doc = D1, current_layer = False, in_draw = False, draw_id = None, draw_pts = []\<rparr>"
    unfolding load_line_def Let_def k
    by simp
  have "load_loop dec_numerics (load_start doc_triangle) lines_long_id
      = load_loop dec_numerics
          \<lparr>doc = D0, current_layer = True, in_draw = False, draw_id = None, draw_pts = []\<rparr>
          [''  draw path id=stroke_'' @ long_digits @ '' {'' @ [CHR 0x0A],
           ''    move 1 2'' @ [CHR 0x0A], ''  }'' @ [CHR 0x0A], ''}'' @ [CHR 0x0A]]"
    unfolding lines_long_id_def by (rule load_loop_step) (rule s1)
  also have "\<dots> = load_loop dec_numerics
          \<lparr>doc = D0, current_layer = True, in_draw = True,
            draw_id = Some (''stroke_'' @ long_digits), draw_pts = []\<rparr>
          [''    move 1 2'' @ [CHR 0x0A], ''  }'' @ [CHR 0x0A], ''}'' @ [CHR 0x0A]]"
    by (rule load_loop_step) (rule s2)
  also have "\<dots> = load_loop dec_numerics
          \<lparr>doc = D0, current_layer = True, in_draw = True,
            draw_id = Some (''stroke_'' @ long_digits), draw_pts = [(1, 2)]\<rparr>
          [''  }'' @ [CHR 0x0A], ''}'' @ [CHR 0x0A]]"
    by (rule load_loop_step) (rule s3)
  also have "\<dots> = load_loop dec_numerics
          \<lparr>doc = D1, current_layer = True, in_draw = False, draw_id = None, draw_pts = []\<rparr>
          [''}'' @ [CHR 0x0A]]"
    by (rule load_loop_step) (rule s4)
  also have "\<dots> = load_loop dec_numerics
          \<lparr>doc = D1, current_layer = False, in_draw = False, draw_id = None, draw_pts = []\<rparr> []"
    by (rule load_loop_step) (rule s5)
  finally have "load_loop dec_numerics (load_start doc_triangle) lines_long_id
      = Inr \<lparr>doc = D1, current_layer = False, in_draw = False, draw_id = None, draw_pts = []\<rparr>"
    by simp
  then show ?thesis
    by (simp add: load_from_lines_def load_finish_def D1_def)
qed

lemma ones_div_9: "(10 ^ Suc n - 1) div 9 = 10 ^ n + (10 ^ n - 1) div (9 :: nat)"
proof -
  have "(1 :: nat) \<le> 10 ^ n" by simp
  then have e: "(10 :: nat) ^ Suc n - 1 = (10 ^ n - 1) + 10 ^ n * 9" by simp
  show ?thesis unfolding e by (rule div_mult_self1) simp
qed

lemma digits_value_ones:
  "digits_value 10 acc (replicate n CHR ''1'') = Some (acc * 10 ^ n + (10 ^ n - 1) div 9)"
proof (induction n arbitrary: acc)
  case 0
  then show ?case by simp
next
  case (Suc n)
  have one: "digit_in 10 CHR ''1'' = Some 1" by (simp add: digit_in_def digit_val_def)
  show ?case
    using Suc.IH [of "acc * 10 + 1"]
    by (simp add: digits_value_step one ones_div_9 algebra_simps)
qed

lemma digits_start_ones: "digits_start 10 (replicate (Suc n) CHR ''1'') = Some ((10 ^ Suc n - 1) div 9)"
proof -
  have one: "digit_in 10 CHR ''1'' = Some 1" by (simp add: digit_in_def digit_val_def)
  have "digits_start 10 (replicate (Suc n) CHR ''1'') = digits_value 10 1 (replicate n CHR ''1'')"
    by (simp add: digits_start_def one)
  also have "\<dots> = Some (1 * 10 ^ n + (10 ^ n - 1) div 9)" by (rule digits_value_ones)
  finally show ?thesis by (simp only: ones_div_9 mult_1)
qed

lemma ones_positive: "1 \<le> (10 ^ Suc n - 1) div (9 :: nat)"
proof -
  have "(1 :: nat) \<le> 10 ^ n" by simp
  then show ?thesis unfolding ones_div_9 by (rule trans_le_add1)
qed

text \<open>
  C5, as the spec states it, fails on a stroke id whose numeric suffix has more than 4300
  digits: \<^verbatim>\<open>int\<close> raises \<^verbatim>\<open>ValueError\<close> on it, the \<^verbatim>\<open>try\<close> around the update of the
  counter passes over the exception, and the stroke stays registered under its id. The
  file \<open>lines_long_id\<close> loads with the stroke \<^verbatim>\<open>stroke_11...1\<close> (4301 digits, the number
  \<open>(10^4301 - 1) / 9\<close>) and leaves the stroke counter at 1, far below that number.
\<close>

theorem long_stroke_id_counterexample:
  "load_from_lines dec_numerics lines_long_id doc_triangle
     = Inr (doc_triangle\<lparr>layers := [\<lparr>layer_id = 1, name = ''Layer 1'', visible = True,
                strokes = [\<lparr>stroke_id = ''stroke_'' @ long_digits, color = Some ''#000000'',
                            width = 2, points = [(1, 2)], erased = False, fill = None\<rparr>]\<rparr>],
              layer_counter := 2, stroke_counter := 1\<rparr>)
   \<and> length long_digits = 4301
   \<and> digits_start 10 long_digits = Some ((10 ^ Suc 4300 - 1) div 9)
   \<and> stroke_counter (loaded_doc (load_from_lines dec_numerics lines_long_id doc_triangle))
       \<le> int ((10 ^ Suc 4300 - 1) div 9)"
proof -
  have ld: "long_digits = replicate (Suc 4300) CHR ''1''" by (simp add: long_digits_def)
  have a: "digits_start 10 long_digits = Some ((10 ^ Suc 4300 - 1) div 9)"
    unfolding ld by (rule digits_start_ones)
  have c: "stroke_counter (loaded_doc (load_from_lines dec_numerics lines_long_id doc_triangle)) = int 1"
    by (simp add: load_long_id loaded_doc_def)
  have b: "stroke_counter (loaded_doc (load_from_lines dec_numerics lines_long_id doc_triangle))
       \<le> int ((10 ^ Suc 4300 - 1) div 9)"
    unfolding c by (rule of_nat_mono) (rule ones_positive)
  from load_long_id long_digits_facts(3) a b show ?thesis by (intro conjI)
qed

text \<open>
  C5 (amended): after parsing any file (whether the load returns or raises), every layer
  id of the document is strictly below the layer counter; for every stroke id of the form
  \<^verbatim>\<open>stroke_<n>\<close> whose suffix \<^verbatim>\<open>int\<close> reads (so of at most 4300 digits), the number is
  strictly below the stroke counter; and the id \<^verbatim>\<open>stroke_<c>\<close> that a later stroke
  gets, for any \<open>c\<close> from the stroke counter on, is the id of no loaded stroke.
\<close>

theorem load_advances_counters:
  "list_all (\<lambda>l. layer_id l < layer_counter (loaded_doc (load_from_lines N lines d))
       \<and> list_all (\<lambda>s.
             (case stroke_number (stroke_id s) of
                None \<Rightarrow> True
              | Some n \<Rightarrow> n < stroke_counter (loaded_doc (load_from_lines N lines d)))
             \<and> (stroke_counter (loaded_doc (load_from_lines N lines d)) \<le> c
                  \<longrightarrow> py_str c = Some ctext \<longrightarrow> stroke_id s \<noteq> ''stroke_'' @ ctext))
           (strokes l))
     (layers (loaded_doc (load_from_lines N lines d)))"
proof -
  let ?d = "loaded_doc (load_from_lines N lines d)"
  have c: "counters_cover ?d" by (rule load_counters_cover)
  have fresh: "stroke_id s \<noteq> ''stroke_'' @ ctext"
    if cov: "stroke_covered (stroke_counter ?d) s" and le: "stroke_counter ?d \<le> c"
      and str: "py_str c = Some ctext" for s :: "'a stroke"
  proof
    assume "stroke_id s = ''stroke_'' @ ctext"
    then have "stroke_number (stroke_id s) = Some c"
      using str by (simp only: stroke_number_synthesized)
    with cov le show False by (simp add: stroke_covered_def)
  qed
  show ?thesis
    using c fresh unfolding counters_cover_def list_all_iff stroke_covered_def
    by (auto split: option.splits)
qed

theorem load_advances_counters_witness:
  "layers (loaded_doc (load_from_lines dec_numerics lines_12_77 doc_triangle))
     = [\<lparr>layer_id = 12, name = ''Layer 12'', visible = True,
         strokes = [\<lparr>stroke_id = ''stroke_77'', color = Some ''#ff0000'', width = 4,
                     points = [(1, 2), (3, 9 / 2)], erased = False, fill = None\<rparr>]\<rparr>]
   \<and> stroke_number ''stroke_77'' = Some 77
   \<and> 12 < layer_counter (loaded_doc (load_from_lines dec_numerics lines_12_77 doc_triangle))
   \<and> 77 < stroke_counter (loaded_doc (load_from_lines dec_numerics lines_12_77 doc_triangle))
   \<and> stroke_counter (loaded_doc (load_from_lines dec_numerics lines_12_77 doc_triangle)) \<le> 78
   \<and> py_str 78 = Some ''78''
   \<and> ''stroke_77'' \<noteq> ''stroke_'' @ ''78''"
proof -
  have ev: "layers (loaded_doc (load_from_lines dec_numerics lines_12_77 doc_triangle))
     = [\<lparr>layer_id = 12, name = ''Layer 12'', visible = True,
         strokes = [\<lparr>stroke_id = ''stroke_77'', color = Some ''#ff0000'', width = 4,
                     points = [(1, 2), (3, 9 / 2)], erased = False, fill = None\<rparr>]\<rparr>]"
    by code_simp
  have cnt: "stroke_counter (loaded_doc (load_from_lines dec_numerics lines_12_77 doc_triangle)) \<le> 78"
    by code_simp
  have sn: "stroke_number ''stroke_77'' = Some 77" by code_simp
  have str: "py_str 78 = Some ''78''" by code_simp
  show ?thesis
    using load_advances_counters [of dec_numerics lines_12_77 doc_triangle 78 "''78''"] sn cnt str
    unfolding ev by simp
qed

subsection \<open>A draw block that is open at the end of the file\<close>

lemma change_last_Nil_iff: "change_last f xs = [] \<longleftrightarrow> xs = []"
  by (cases xs rule: rev_cases) simp_all

lemma finish_layers_empty:
  "finish_draw_block N lr sid pts style d = Inr d' \<Longrightarrow> layers d' = [] \<longleftrightarrow> layers d = []"
  unfolding finish_draw_block_def Let_def append_stroke_def
  by (auto simp: change_last_Nil_iff split: if_splits option.splits sum.splits)

lemma layers_canvas_line: "layers (canvas_line stripped d) = layers d"
  by (simp add: canvas_line_def Let_def split: option.splits)

lemma layers_background_line: "layers (background_line stripped d) = layers d"
  by (simp add: background_line_def Let_def)

lemma layers_layer_line: "layer_line stripped d = Inr d' \<Longrightarrow> layers d' \<noteq> []"
  by (auto simp: layer_line_def Let_def split: option.splits)

lemma layers_erase_line: "layers (erase_line stripped d) = [] \<longleftrightarrow> layers d = []"
  by (simp add: erase_line_def change_last_Nil_iff split: option.splits)

lemma open_inv_load_line:
  assumes "open_inv st" and "load_line N st raw = Inr st'"
  shows "open_inv st'"
  using assms unfolding load_line_def draw_line_def Let_def open_inv_def
  by (auto split: if_splits sum.splits
      simp: finish_layers_empty layers_canvas_line layers_background_line
        layers_erase_line dest: layers_layer_line)

lemma open_inv_load_loop:
  "open_inv st \<Longrightarrow> load_loop N st lines = Inr st' \<Longrightarrow> open_inv st'"
proof (induction lines arbitrary: st)
  case Nil
  then show ?case by simp
next
  case (Cons raw rest)
  then obtain st1 where s1: "load_line N st raw = Inr st1" and r: "load_loop N st1 rest = Inr st'"
    by (auto split: sum.splits)
  from Cons.prems(1) s1 have "open_inv st1" by (rule open_inv_load_line)
  from Cons.IH [OF this r] show ?case .
qed

lemma open_inv_start: "open_inv (load_start d)"
  by (simp add: open_inv_def load_start_def)

text \<open>
  C6, as the spec states it, fails when the open block has collected no point: the final
  clean-up is guarded by \<^verbatim>\<open>in_draw and draw_pts\<close>, so no stroke is created. The file
  \<open>lines_open_empty\<close> ends inside the draw block \<^verbatim>\<open>a\<close>, and the layer it loads is empty.
\<close>

theorem unterminated_empty_block_counterexample:
  "(case load_loop dec_numerics (load_start doc_triangle) lines_open_empty of
      Inl failure \<Rightarrow> False
    | Inr st \<Rightarrow> in_draw st \<and> draw_id st = Some ''a'' \<and> draw_pts st = [])
   \<and> load_result_layers (load_from_lines dec_numerics lines_open_empty doc_triangle)
       = Inr [\<lparr>layer_id = 1, name = ''Layer 1'', visible = True, strokes = []\<rparr>]"
  by code_simp

text \<open>
  C6 (amended): for every input text in which the end of the file is reached inside an open
  draw block that has collected at least one point, the load returns, and the open layer
  (the last layer of the document) has got one more stroke: its id is the block's id, or
  \<^verbatim>\<open>stroke_<counter>\<close> when the block has none, its points are exactly the points
  collected, its colour is \<^verbatim>\<open>#000000\<close>, its width 2, it has no fill and is not erased.
  Only when the block has no id and the stroke counter has more than 4300 digits, so that
  formatting the id raises \<^verbatim>\<open>ValueError\<close>, the load fails and the document stays as
  the lines built it. The number primitives are assumed to read \<^verbatim>\<open>"2"\<close> as a number
  whose integer is 2.
\<close>

theorem unterminated_block_finished:
  assumes "float_of N ''2'' = Some two" and "int_of_float N two = Inr 2"
    and "load_loop N (load_start d) lines = Inr st"
    and "in_draw st" and "draw_pts st \<noteq> []"
  shows "layers (doc st) \<noteq> []
     \<and> (case (if truthy (draw_id st) then draw_id st
               else map_option (\<lambda>t. ''stroke_'' @ t) (py_str (stroke_counter (doc st)))) of
          None \<Rightarrow> load_from_lines N lines d = Inl (ValueError, doc st)
        | Some sid \<Rightarrow>
            load_result_layers (load_from_lines N lines d)
              = Inr (butlast (layers (doc st))
                  @ [(last (layers (doc st)))
                       \<lparr>strokes := strokes (last (layers (doc st)))
                          @ [\<lparr>stroke_id = sid,
                              color = Some ''#000000'', width = 2, points = draw_pts st,
                              erased = False, fill = None\<rparr>]\<rparr>]))"
proof -
  have inv: "open_inv st" using open_inv_start assms(3) by (rule open_inv_load_loop)
  with assms(4) have cur: "current_layer st" and ne: "layers (doc st) \<noteq> []"
    by (simp_all add: open_inv_def)
  have style: "dict_get [] ''stroke'' = None" "dict_get [] ''color'' = None"
    "dict_get [] ''fill'' = None" "dict_get [] ''strokeWidth'' = None" "dict_get [] ''width'' = None"
    by (simp_all add: dict_get_def)
  have col: "the (or_else (or_else None None) (Some ''#000000'')) = ''#000000''"
    by (simp add: or_else_def truthy_def)
  show ?thesis
    using assms(1,2,3,4,5) cur ne
    unfolding load_from_lines_def load_finish_def load_result_layers_def finish_draw_block_def
      Let_def style col append_stroke_def
    by (simp add: change_last_eq split: option.splits)
qed

theorem unterminated_block_finished_witness:
  "float_of dec_numerics ''2'' = Some 2
   \<and> int_of_float dec_numerics 2 = Inr 2
   \<and> load_loop dec_numerics (load_start doc_triangle) lines_open_two
       = Inr \<lparr>doc = doc_triangle\<lparr>layers := [\<lparr>layer_id = 1, name = ''Layer 1'', visible = True,
                                               strokes = []\<rparr>],
                                  layer_counter := 2, stroke_counter := 1\<rparr>,
               current_layer = True, in_draw = True, draw_id = Some ''a'',
               draw_pts = [(1, 2), (3, 4)]\<rparr>
   \<and> load_result_layers (load_from_lines dec_numerics lines_open_two doc_triangle)
       = Inr [\<lparr>layer_id = 1, name = ''Layer 1'', visible = True,
               strokes = [\<lparr>stroke_id = ''a'', color = Some ''#000000'', width = 2,
                           points = [(1, 2), (3, 4)], erased = False, fill = None\<rparr>]\<rparr>]"
proof -
  have f: "float_of dec_numerics ''2'' = Some 2" by code_simp
  have i: "int_of_float dec_numerics 2 = Inr 2" by code_simp
  have l: "load_loop dec_numerics (load_start doc_triangle) lines_open_two
       = Inr \<lparr>doc = doc_triangle\<lparr>layers := [\<lparr>layer_id = 1, name = ''Layer 1'', visible = True,
                                               strokes = []\<rparr>],
                                  layer_counter := 2, stroke_counter := 1\<rparr>,
               current_layer = True, in_draw = True, draw_id = Some ''a'',
               draw_pts = [(1, 2), (3, 4)]\<rparr>"
    by code_simp
  show ?thesis
    using unterminated_block_finished [OF f i l] f i l by (simp add: truthy_def)
qed

subsection \<open>A load that fails\<close>






subsection \<open>Saving and reloading an erased stroke\<close>

text \<open>
  C1 fails on reload. The writer emits an erased stroke as the single line
  \<^verbatim>\<open>erase ref=<id>\<close> and no draw block, as the claim says; but the loader marks a stroke
  as erased only when a draw block of the same layer has registered it before, so the
  line refers to nothing and the stroke is gone from the reloaded document, with its
  points, colour and width. For the document \<open>doc_erased_only\<close> (one layer, one erased
  stroke \<^verbatim>\<open>stroke_1\<close>) the text written is \<open>erased_text\<close>, and loading that text gives
  a layer without strokes, whatever the number primitives are.
\<close>

theorem save_reload_drops_erased_stroke:
  "save_text N doc_erased_only = Inr erased_text
   \<and> load_result_layers
        (load_from_lines N (readlines (universal_newlines erased_text)) doc_erased_only)
      = Inr [\<lparr>layer_id = 1, name = ''Layer 1'', visible = True, strokes = []\<rparr>]"
  by code_simp

subsection \<open>Style tokens behind the brace or on the next line\<close>

lemma strip_Nil: "strip [] = []"
  by (simp add: strip_def lstrip_def rstrip_def)

lemma lookahead_blanks:
  "list_all (\<lambda>l. strip l = [] \<or> startswith (strip l) ''#'') blanks \<Longrightarrow>
     lookahead (blanks @ following) = lookahead following"
  by (induction blanks) simp_all

lemma path_loop_body:
  assumes "list_all (\<lambda>l. \<not> startswith (strip (rstrip_char (CHR 0x0A) l)) ''}'') body"
    and "\<And>pts. path_loop N pts m1 = path_loop N pts m2"
  shows "path_loop N pts (body @ m1) = path_loop N pts (body @ m2)"
  using assms(1)
proof (induction body arbitrary: pts)
  case Nil
  show ?case by (simp add: assms(2))
next
  case (Cons l body)
  then have l: "\<not> startswith (strip (rstrip_char (CHR 0x0A) l)) ''}''"
    and b: "list_all (\<lambda>l. \<not> startswith (strip (rstrip_char (CHR 0x0A) l)) ''}'') body"
    by simp_all
  show ?case
    using l Cons.IH [OF b] by (simp split: option.splits)
qed

text \<open>
  C4, as the spec states it, fails in the editor: its loader reads the style tokens only
  from the line of the closing brace (the source: "our writer writes them on same line").
  With the tokens behind the brace the stroke is red and 4 wide; with the brace alone and
  the same tokens on the next line the stroke gets the defaults, black and 2 wide, and
  the style line is passed over.
\<close>

theorem editor_lookahead_counterexample:
  "load_result_layers (load_from_lines dec_numerics lines_brace_tail doc_triangle)
     = Inr [\<lparr>layer_id = 1, name = ''Layer 1'', visible = True,
             strokes = [\<lparr>stroke_id = ''s'', color = Some ''#ff0000'', width = 4,
                         points = [(1, 2), (3, 4)], erased = False, fill = None\<rparr>]\<rparr>]
   \<and> load_result_layers (load_from_lines dec_numerics lines_lookahead doc_triangle)
     = Inr [\<lparr>layer_id = 1, name = ''Layer 1'', visible = True,
             strokes = [\<lparr>stroke_id = ''s'', color = Some ''#000000'', width = 2,
                         points = [(1, 2), (3, 4)], erased = False, fill = None\<rparr>]\<rparr>]"
  by code_simp

text \<open>
  C4 (amended): in the renderer's path parser the two variants of a draw block give the
  same result: the same command (points, stroke colour, stroke width) or the same
  exception, and the same lines left to parse. The block's body is any list of lines none
  of which starts with the closing brace; in the first variant the closing line is the
  brace followed by the style text, in the second the brace stands alone and the style
  line follows after any number of blank lines and comments. The style line is not blank,
  is no comment, contains \<^verbatim>\<open>=\<close>, and its first word is none of the reserved keywords.
\<close>

theorem renderer_brace_tail_lookahead:
  assumes "list_all (\<lambda>l. \<not> startswith (strip (rstrip_char (CHR 0x0A) l)) ''}'') body"
    and "strip (rstrip_char (CHR 0x0A) tail_line) = CHR ''}'' # tail_text"
    and "strip tail_text = strip style_line"
    and "strip (rstrip_char (CHR 0x0A) brace_line) = ''}''"
    and "list_all (\<lambda>l. strip l = [] \<or> startswith (strip l) ''#'') blanks"
    and "strip style_line \<noteq> []" and "\<not> startswith (strip style_line) ''#''"
    and "CHR ''='' \<in> set (strip style_line)"
    and "\<not> List.member reserved_words (hd (split_ws (strip style_line)))"
  shows "parse_draw_path N (body @ [tail_line] @ rest) layer
       = parse_draw_path N (body @ [brace_line] @ blanks @ [style_line] @ rest) layer"
proof -
  have look: "lookahead (blanks @ [style_line] @ rest) = Some (split_ws (strip style_line), rest)"
    using assms(6,7,8,9) by (simp add: lookahead_blanks [OF assms(5)])
  have close: "path_loop N pts ([tail_line] @ rest)
      = path_loop N pts ([brace_line] @ blanks @ [style_line] @ rest)" for pts
    using assms(3,6) look by (simp add: assms(2) assms(4) strip_Nil)
  have "path_loop N [] (body @ [tail_line] @ rest)
      = path_loop N [] (body @ [brace_line] @ blanks @ [style_line] @ rest)"
    using assms(1) close by (rule path_loop_body)
  then show ?thesis by (simp add: parse_draw_path_def)
qed

theorem renderer_brace_tail_lookahead_witness:
  "parse_draw_path dec_numerics
     ([''    move 1 2'' @ [CHR 0x0A], ''    line 3 4'' @ [CHR 0x0A]]
        @ [''  } stroke=#ff0000 strokeWidth=4'' @ [CHR 0x0A]] @ [''}'' @ [CHR 0x0A]])
     new_render_layer
   = Inr (\<lparr>commands = [\<lparr>cmd_points = [(1, 2), (3, 4)], cmd_stroke = Some (255, 0, 0), cmd_sw = 4\<rparr>],
           style_stroke = Some (255, 255, 255), style_strokeWidth = 2\<rparr>,
          [''}'' @ [CHR 0x0A]])
   \<and> parse_draw_path dec_numerics
     ([''    move 1 2'' @ [CHR 0x0A], ''    line 3 4'' @ [CHR 0x0A]]
        @ [''  }'' @ [CHR 0x0A]] @ [[CHR 0x0A], ''# style'' @ [CHR 0x0A]]
        @ [''  stroke=#ff0000 strokeWidth=4'' @ [CHR 0x0A]] @ [''}'' @ [CHR 0x0A]])
     new_render_layer
   = Inr (\<lparr>commands = [\<lparr>cmd_points = [(1, 2), (3, 4)], cmd_stroke = Some (255, 0, 0), cmd_sw = 4\<rparr>],
           style_stroke = Some (255, 255, 255), style_strokeWidth = 2\<rparr>,
          [''}'' @ [CHR 0x0A]])"
proof -
  have h1: "list_all (\<lambda>l. \<not> startswith (strip (rstrip_char (CHR 0x0A) l)) ''}'')
      [''    move 1 2'' @ [CHR 0x0A], ''    line 3 4'' @ [CHR 0x0A]]"
    by code_simp
  have h2: "strip (rstrip_char (CHR 0x0A) (''  } stroke=#ff0000 strokeWidth=4'' @ [CHR 0x0A]))
      = CHR ''}'' # '' stroke=#ff0000 strokeWidth=4''"
    by code_simp
  have h3: "strip '' stroke=#ff0000 strokeWidth=4''
      = strip (''  stroke=#ff0000 strokeWidth=4'' @ [CHR 0x0A])"
    by code_simp
  have h4: "strip (rstrip_char (CHR 0x0A) (''  }'' @ [CHR 0x0A])) = ''}''"
    by code_simp
  have h5: "list_all (\<lambda>l. strip l = [] \<or> startswith (strip l) ''#'')
      [[CHR 0x0A], ''# style'' @ [CHR 0x0A]]"
    by code_simp
  have h6: "strip (''  stroke=#ff0000 strokeWidth=4'' @ [CHR 0x0A]) \<noteq> []"
    by code_simp
  have h7: "\<not> startswith (strip (''  stroke=#ff0000 strokeWidth=4'' @ [CHR 0x0A])) ''#''"
    by code_simp
  have h8: "CHR ''='' \<in> set (strip (''  stroke=#ff0000 strokeWidth=4'' @ [CHR 0x0A]))"
    by code_simp
  have h9: "\<not> List.member reserved_words
      (hd (split_ws (strip (''  stroke=#ff0000 strokeWidth=4'' @ [CHR 0x0A]))))"
    by code_simp
  have ev: "parse_draw_path dec_numerics
     ([''    move 1 2'' @ [CHR 0x0A], ''    line 3 4'' @ [CHR 0x0A]]
        @ [''  } stroke=#ff0000 strokeWidth=4'' @ [CHR 0x0A]] @ [''}'' @ [CHR 0x0A]])
     new_render_layer
   = Inr (\<lparr>commands = [\<lparr>cmd_points = [(1, 2), (3, 4)], cmd_stroke = Some (255, 0, 0), cmd_sw = 4\<rparr>],
           style_stroke = Some (255, 255, 255), style_strokeWidth = 2\<rparr>,
          [''}'' @ [CHR 0x0A]])"
    by code_simp
  show ?thesis
    using renderer_brace_tail_lookahead [OF h1 h2 h3 h4 h5 h6 h7 h8 h9,
        of dec_numerics "[''}'' @ [CHR 0x0A]]" new_render_layer] ev
    by simp
qed

end
